theory Spec2Isabelle
  imports Main "HOL-Library.Char_ord" "HOL-Library.List_Lexorder"
begin

section \<open>Host library: strings, arrays and Map as the script uses them\<close>

text \<open>
  The script under verification is \<^verbatim>\<open>static/main.js\<close>. A JavaScript string is modelled
  as a \<^typ>\<open>string\<close> whose characters are code units below 256; the order on strings is the
  lexicographic order on code units, which is what \<^verbatim>\<open>Array.prototype.sort\<close> without a
  comparator and the operator \<^verbatim>\<open><\<close> use.
\<close>

text \<open>White space and line terminators removed by \<^verbatim>\<open>String.prototype.trim\<close> (the ones below 256):
  TAB, LF, VT, FF, CR, SP and NBSP.\<close>

definition is_ws :: "char \<Rightarrow> bool" where
  "is_ws c = (of_char c \<in> {9::nat, 10, 11, 12, 13, 32, 160})"

definition js_trim :: "string \<Rightarrow> string" where
  "js_trim s = rev (dropWhile is_ws (rev (dropWhile is_ws s)))"

text \<open>\<^verbatim>\<open>s.split(c)\<close> for a one-character separator: always at least one part.\<close>

fun js_split :: "char \<Rightarrow> string \<Rightarrow> string list" where
  "js_split c [] = [[]]"
| "js_split c (x # xs) =
     (if x = c then [] # js_split c xs
      else (case js_split c xs of [] \<Rightarrow> [[x]] | p # ps \<Rightarrow> (x # p) # ps))"

text \<open>\<^verbatim>\<open>parts.join(sep)\<close>.\<close>

fun js_join :: "string \<Rightarrow> string list \<Rightarrow> string" where
  "js_join sep [] = []"
| "js_join sep [p] = p"
| "js_join sep (p # q # ps) = p @ sep @ js_join sep (q # ps)"

text \<open>\<^verbatim>\<open>s.startsWith(p)\<close>.\<close>

definition startsWith :: "string \<Rightarrow> string \<Rightarrow> bool" where
  "startsWith s p = (take (length p) s = p)"

text \<open>
  The \<^verbatim>\<open>value\<close> a text area gives back is the text assigned to it with its line breaks
  normalised: a CR followed by LF, and a CR alone, are each read as one LF. The scan
  turns every CR into LF and drops an LF that comes right after a CR.
\<close>

fun normalize_newlines :: "bool \<Rightarrow> string \<Rightarrow> string" where
  "normalize_newlines after_cr [] = []"
| "normalize_newlines after_cr (c # s) =
     (if c = CHR 0x0A \<and> after_cr then [] else [if c = CHR 0x0D then CHR 0x0A else c])
     @ normalize_newlines (c = CHR 0x0D) s"

definition textarea_value :: "string \<Rightarrow> string" where
  "textarea_value raw = normalize_newlines False raw"

text \<open>
  A \<^verbatim>\<open>Map\<close> keeps its entries in insertion order, one entry per key: \<^verbatim>\<open>set\<close> on a key that
  is present replaces the value where the entry stands, \<^verbatim>\<open>set\<close> on a new key appends,
  \<^verbatim>\<open>clear\<close> empties the map.
\<close>

type_synonym js_Map = "(string \<times> string) list"

fun Map_set :: "js_Map \<Rightarrow> string \<Rightarrow> string \<Rightarrow> js_Map" where
  "Map_set [] k v = [(k, v)]"
| "Map_set ((k', v') # m) k v =
     (if k' = k then (k, v) # m else (k', v') # Map_set m k v)"

definition Map_clear :: "js_Map \<Rightarrow> js_Map" where
  "Map_clear m = []"

text \<open>\<^verbatim>\<open>entries.forEach(([k, v]) => map.set(k, v))\<close>, as the refresh paths replay a snapshot.\<close>

fun set_each :: "js_Map \<Rightarrow> (string \<times> string) list \<Rightarrow> js_Map" where
  "set_each m [] = m"
| "set_each m ((k, v) # es) = set_each (Map_set m k v) es"

section \<open>Time keys and type tokens\<close>

definition digit :: "nat \<Rightarrow> char" where
  "digit n = ''0123456789'' ! (n mod 10)"

definition pad2 :: "nat \<Rightarrow> string" where
  "pad2 n = [digit (n div 10), digit n]"

text \<open>The canonical key \<open>HH:MM\<close> of hour \<open>h\<close> and minute \<open>m\<close>.\<close>

definition TimeKey :: "nat \<Rightarrow> nat \<Rightarrow> string" where
  "TimeKey h m = pad2 h @ '':'' @ pad2 m"

definition valid_TimeKey :: "string \<Rightarrow> bool" where
  "valid_TimeKey s = list_ex (\<lambda>h. list_ex (\<lambda>m. s = TimeKey h m) [0..<60]) [0..<24]"

text \<open>
  The label of a type token, as both \<^verbatim>\<open>scheduleEditor.updateScheduleList\<close> and
  \<^verbatim>\<open>updateUpcomingAnnouncements\<close> compute it:
  \<^verbatim>\<open>type.startsWith('custom:') ? `Custom: ${type.replace('custom:', '')}` : typeLabels[type] || type\<close>.
  The table is an object literal, so a lookup that misses its four own keys still finds the
  properties every object inherits from \<^verbatim>\<open>Object.prototype\<close>; such a value is a function
  (or the prototype object), it is truthy, and its text is the host's. The model keeps the
  two kinds of result apart.
\<close>

datatype label = Text string | Inherited string

definition typeLabels :: "string \<Rightarrow> string option" where
  "typeLabels ty =
     (if ty = '':55'' then Some ''Color Warning''
      else if ty = ''hour'' then Some ''Hour Change''
      else if ty = ''rules'' then Some ''Rules''
      else if ty = ''ad'' then Some ''Advertisement''
      else None)"

definition Object_prototype_names :: "string list" where
  "Object_prototype_names =
     [''constructor'', ''hasOwnProperty'', ''isPrototypeOf'', ''propertyIsEnumerable'',
      ''toLocaleString'', ''toString'', ''valueOf'', ''__proto__'',
      ''__defineGetter__'', ''__defineSetter__'', ''__lookupGetter__'', ''__lookupSetter__'']"

definition typeLabel :: "string \<Rightarrow> label" where
  "typeLabel ty =
     (if startsWith ty ''custom:'' then Text (''Custom: '' @ drop 7 ty)
      else (case typeLabels ty of
              Some l \<Rightarrow> Text l
            | None \<Rightarrow> if ty \<in> set Object_prototype_names then Inherited ty else Text ty))"

section \<open>The schedule editor: list and serialization\<close>

text \<open>
  \<^verbatim>\<open>[...this.times.entries()].sort()\<close>: without a comparator the entries are compared as
  strings, and an entry \<^verbatim>\<open>[time, type]\<close> as a string is \<^verbatim>\<open>time + "," + type\<close>. The sort is
  stable.
\<close>

definition entry_string :: "string \<times> string \<Rightarrow> string" where
  "entry_string e = fst e @ '','' @ snd e"

definition timeEntries :: "js_Map \<Rightarrow> (string \<times> string) list" where
  "timeEntries m = sort_key entry_string m"

text \<open>\<^verbatim>\<open>timeEntries.map(([time, type]) => `${time} = ${type}`).join('\n')\<close>, the value
  written to the \<^verbatim>\<open>times\<close> text area.\<close>

definition entry_line :: "string \<times> string \<Rightarrow> string" where
  "entry_line e = fst e @ '' = '' @ snd e"

definition serialize :: "js_Map \<Rightarrow> string" where
  "serialize m = js_join [CHR 0x0A] (map entry_line (timeEntries m))"

section \<open>Host library: numbers and dates\<close>

text \<open>
  \<^verbatim>\<open>Number(s)\<close> is the host's conversion of a string to a double. The script passes the
  results to \<^verbatim>\<open>Date.prototype.setHours\<close> only, which takes the integer part of a finite
  argument and yields an invalid date on \<^verbatim>\<open>NaN\<close> and on an infinity. The functions below
  therefore take the conversion as a parameter \<open>num\<close> of type
  \<^typ>\<open>string \<Rightarrow> int option\<close>: \<open>num s = Some i\<close> when \<^verbatim>\<open>Number(s)\<close> is finite with integer
  part \<open>i\<close>, and \<open>None\<close> when it is \<^verbatim>\<open>NaN\<close> or infinite. What is proved for every \<open>num\<close>
  holds for the host's. \<open>decimal_Number\<close> is the conversion on the strings that, white
  space trimmed, are empty or consist of decimal digits; it is used where a concrete
  conversion is evaluated, on such strings only.
\<close>

type_synonym Number_fn = "string \<Rightarrow> int option"

definition digit_value :: "char \<Rightarrow> nat option" where
  "digit_value c =
     (let n = (of_char c :: nat) in if 48 \<le> n \<and> n \<le> 57 then Some (n - 48) else None)"

definition decimal_Number :: Number_fn where
  "decimal_Number s =
     (let t = js_trim s in
      if list_all (\<lambda>c. digit_value c \<noteq> None) t
      then Some (int (foldl (\<lambda>a c. case digit_value c of Some d \<Rightarrow> 10 * a + d | None \<Rightarrow> a) 0 t))
      else None)"


text \<open>
  A time value is the number of milliseconds since the epoch, in UTC. A \<^verbatim>\<open>Date\<close> holds a
  time value or is invalid (\<open>None\<close>). Time values are integers below \<open>2 ^ 53\<close>, on which the
  host's arithmetic on doubles is exact.
\<close>

definition msPerMinute :: int where "msPerMinute = 60000"
definition msPerHour :: int where "msPerHour = 3600000"
definition msPerDay :: int where "msPerDay = 86400000"
definition maxTime :: int where "maxTime = 8640000000000000"

definition TimeClip :: "int \<Rightarrow> int option" where
  "TimeClip t = (if \<bar>t\<bar> > maxTime then None else Some t)"

definition Day :: "int \<Rightarrow> int" where
  "Day t = t div msPerDay"

text \<open>
  \<^verbatim>\<open>setHours\<close>, \<^verbatim>\<open>getDate\<close> and \<^verbatim>\<open>setDate\<close> work on local time. The zone of the host enters
  through the function \<^verbatim>\<open>LocalTZA(t, isUTC)\<close> of the language specification: the offset of
  local time from UTC in milliseconds, the one in force at the time value \<open>t\<close> when
  \<open>isUTC\<close> holds, and the one the host chooses for the local time \<open>t\<close> otherwise. The
  functions below take it as a parameter \<open>tza\<close>; what is proved for every \<open>tza\<close> holds
  for the host's.
\<close>

type_synonym LocalTZA_fn = "int \<Rightarrow> bool \<Rightarrow> int"

definition LocalTime :: "LocalTZA_fn \<Rightarrow> int \<Rightarrow> int" where
  "LocalTime tza t = t + tza t True"

definition UTC :: "LocalTZA_fn \<Rightarrow> int \<Rightarrow> int" where
  "UTC tza t = t - tza t False"

text \<open>Two zones for the places where a concrete one is evaluated: a zone whose offset never
  changes, and the zone of New York around 3 November 2024, four hours behind UTC until
  06:00 UTC of that day and five hours behind from then on, where a local time that
  occurs twice is taken as the earlier one.\<close>

definition fixed_zone :: "int \<Rightarrow> LocalTZA_fn" where
  "fixed_zone offset t isUTC = offset"


text \<open>\<^verbatim>\<open>d.setHours(hours, minutes, 0, 0)\<close> on a valid date \<open>t\<close>: the local day of \<open>t\<close> with the
  time of day made of the two arguments, converted back from local time; invalid when an
  argument is not finite or the result is out of range.\<close>

definition setHours :: "LocalTZA_fn \<Rightarrow> int \<Rightarrow> int option \<Rightarrow> int option \<Rightarrow> int option" where
  "setHours tza t hours minutes =
     (case hours of
        None \<Rightarrow> None
      | Some h \<Rightarrow>
          (case minutes of
             None \<Rightarrow> None
           | Some m \<Rightarrow>
               TimeClip (UTC tza (Day (LocalTime tza t) * msPerDay
                                   + h * msPerHour + m * msPerMinute))))"

text \<open>\<^verbatim>\<open>d.setDate(d.getDate() + 1)\<close> on a valid date: the day number of the local date
  (year, month, day of the month plus one) is the local day of \<open>t\<close> plus one, the local
  time of day is kept, and the result is converted back from local time. One calendar day
  later, which is \<open>msPerDay\<close> later only when the offset is the same at both ends.\<close>

definition setDate_next :: "LocalTZA_fn \<Rightarrow> int \<Rightarrow> int option" where
  "setDate_next tza t = TimeClip (UTC tza (LocalTime tza t + msPerDay))"

text \<open>\<^verbatim>\<open>Math.round(d / 1000 / 60)\<close> for an integer \<open>d\<close> of milliseconds: the nearest integer,
  a half rounded up.\<close>

definition round_minutes :: "int \<Rightarrow> int" where
  "round_minutes d = (d + 30000) div 60000"

section \<open>The upcoming-announcements projection\<close>

text \<open>\<^verbatim>\<open>const [timeStr, type] = line.split('=').map(part => part.trim())\<close>: the first two
  parts; \<^verbatim>\<open>type\<close> is \<^verbatim>\<open>undefined\<close> (\<open>None\<close>) when the line has no \<^verbatim>\<open>=\<close>.\<close>

definition parse_line :: "string \<Rightarrow> string \<times> string option" where
  "parse_line line =
     (case map js_trim (js_split (CHR ''='') line) of
        [] \<Rightarrow> ([], None)
      | [timeStr] \<Rightarrow> (timeStr, None)
      | timeStr # type # _ \<Rightarrow> (timeStr, Some type))"

text \<open>\<^verbatim>\<open>const [hours, minutes] = timeStr.split(':').map(Number)\<close>; a missing second part
  leaves \<^verbatim>\<open>minutes\<close> undefined, which \<^verbatim>\<open>setHours\<close> converts to \<^verbatim>\<open>NaN\<close>.\<close>

definition hours_minutes :: "Number_fn \<Rightarrow> string \<Rightarrow> int option \<times> int option" where
  "hours_minutes num timeStr =
     (case js_split (CHR '':'') timeStr of
        [] \<Rightarrow> (None, None)
      | [h] \<Rightarrow> (num h, None)
      | h # m # _ \<Rightarrow> (num h, num m))"

text \<open>Lines 1126 to 1130: the candidate on today's date, rolled to the next day when it
  is earlier than \<open>now\<close>.\<close>

definition candidate :: "Number_fn \<Rightarrow> LocalTZA_fn \<Rightarrow> int \<Rightarrow> string \<Rightarrow> int option" where
  "candidate num tza now timeStr =
     (case hours_minutes num timeStr of (hours, minutes) \<Rightarrow> setHours tza now hours minutes)"

definition scheduleTime_of :: "Number_fn \<Rightarrow> LocalTZA_fn \<Rightarrow> int \<Rightarrow> string \<Rightarrow> int option" where
  "scheduleTime_of num tza now timeStr =
     (case candidate num tza now timeStr of
        None \<Rightarrow> None
      | Some t \<Rightarrow> if t < now then setDate_next tza t else Some t)"

text \<open>Line 1131: \<^verbatim>\<open>Math.round((scheduleTime - now) / 1000 / 60)\<close> on a valid date.\<close>

definition minutesUntil_of :: "int \<Rightarrow> int \<Rightarrow> int" where
  "minutesUntil_of now scheduleTime = round_minutes (scheduleTime - now)"

record upcoming =
  time :: string
  type :: "string option"
  minutesUntil :: int
  scheduleTime :: int

text \<open>The callback of \<^verbatim>\<open>.map\<close>: the item, or \<^verbatim>\<open>null\<close> (\<open>None\<close>) when \<^verbatim>\<open>minutesUntil <= 60\<close>
  is false, as it is when the date is invalid and \<^verbatim>\<open>minutesUntil\<close> is \<^verbatim>\<open>NaN\<close>.\<close>

definition project_line :: "Number_fn \<Rightarrow> LocalTZA_fn \<Rightarrow> int \<Rightarrow> string \<Rightarrow> upcoming option" where
  "project_line num tza now line =
     (case parse_line line of (timeStr, ty) \<Rightarrow>
        (case scheduleTime_of num tza now timeStr of
           None \<Rightarrow> None
         | Some t \<Rightarrow>
             if minutesUntil_of now t \<le> 60
             then Some \<lparr>time = timeStr, type = ty,
                        minutesUntil = minutesUntil_of now t, scheduleTime = t\<rparr>
             else None))"

text \<open>\<^verbatim>\<open>.trim().split('\n')\<close> of the value read from the text area, and
  \<^verbatim>\<open>.filter(line => line.trim())\<close>.\<close>

definition text_lines :: "string \<Rightarrow> string list" where
  "text_lines txt = filter (\<lambda>line. js_trim line \<noteq> []) (js_split (CHR 0x0A) (js_trim txt))"

text \<open>The array \<^verbatim>\<open>upcoming\<close>: the items that are not \<^verbatim>\<open>null\<close>, sorted (stably) by
  \<^verbatim>\<open>scheduleTime\<close>.\<close>

definition upcoming_items :: "Number_fn \<Rightarrow> LocalTZA_fn \<Rightarrow> int \<Rightarrow> string \<Rightarrow> upcoming list" where
  "upcoming_items num tza now txt =
     sort_key scheduleTime (List.map_filter (project_line num tza now) (text_lines txt))"

section \<open>The page: caches, rendered lists and notifications\<close>

text \<open>
  The state the script works on. The two caches are \<^verbatim>\<open>scheduleEditor.times\<close> and
  \<^verbatim>\<open>customTypes.types\<close>. An element of the page is \<open>None\<close> when the document has no
  element of that id, which every function tests before it writes. A rendered list is
  kept as its items, one per \<^verbatim>\<open>div\<close> of the markup, with the strings the template
  interpolates; the clock text of an item is \<^verbatim>\<open>Utils.formatTime\<close> of its time, kept as that
  time. The loading overlay and the console are left out.
\<close>

datatype exn = TypeError | Error string

datatype message = Message string | Host_TypeError_message

text \<open>\<^verbatim>\<open>error.message\<close> in a \<^verbatim>\<open>catch\<close>.\<close>

definition message_of :: "exn \<Rightarrow> message" where
  "message_of e = (case e of TypeError \<Rightarrow> Host_TypeError_message | Error m \<Rightarrow> Message m)"

datatype 'a listing = Placeholder | Listing "'a list"

record schedule_item =
  item_type :: string
  item_time :: string
  item_label :: label

record upcoming_view =
  view_type :: string
  view_time :: string
  view_label :: label
  view_colorInfo :: string
  view_minutes :: int

record page =
  times_Map :: js_Map
  types_Map :: js_Map
  scheduleList :: "schedule_item listing option"
  timesTextarea :: "string option"
  customTypesList :: "(string \<times> string) listing option"
  customTypesTextarea :: "string option"
  newType :: "(string \<times> string) list option"
  upcomingList :: "upcoming_view listing option"
  flash_container :: "(message \<times> string) list option"

text \<open>\<^verbatim>\<open>Utils.showNotification(message, type)\<close>: one more alert in the flash container,
  nothing when the page has none.\<close>

definition showNotification :: "message \<Rightarrow> string \<Rightarrow> page \<Rightarrow> page" where
  "showNotification msg kind s =
     (case flash_container s of
        None \<Rightarrow> s
      | Some alerts \<Rightarrow> s\<lparr>flash_container := Some (alerts @ [(msg, kind)])\<rparr>)"

text \<open>\<^verbatim>\<open>Utils.formatTime(time)\<close> reads \<^verbatim>\<open>minutes.toString()\<close>, which throws a
  \<^verbatim>\<open>TypeError\<close> when \<^verbatim>\<open>time.split(':')\<close> has a single part.\<close>

definition formatTime_throws :: "string \<Rightarrow> bool" where
  "formatTime_throws t = (length (js_split (CHR '':'') t) < 2)"

definition schedule_item_of :: "string \<times> string \<Rightarrow> schedule_item" where
  "schedule_item_of e = \<lparr>item_type = snd e, item_time = fst e, item_label = typeLabel (snd e)\<rparr>"

text \<open>The markup \<^verbatim>\<open>html\<close> that \<^verbatim>\<open>updateScheduleList\<close> builds from the sorted entries: the
  placeholder when there is none, one item per entry otherwise.\<close>

definition schedule_html :: "(string \<times> string) list \<Rightarrow> schedule_item listing" where
  "schedule_html es = (if es = [] then Placeholder else Listing (map schedule_item_of es))"

text \<open>\<^verbatim>\<open>scheduleEditor.updateScheduleList\<close>. An exception of the loop leaves before either
  element is written.\<close>

definition updateScheduleList :: "page \<Rightarrow> page \<times> exn option" where
  "updateScheduleList s =
     (case scheduleList s of
        None \<Rightarrow> (s, None)
      | Some _ \<Rightarrow>
          (case timesTextarea s of
             None \<Rightarrow> (s, None)
           | Some _ \<Rightarrow>
               (let es = timeEntries (times_Map s) in
                if list_ex (\<lambda>e. formatTime_throws (fst e)) es then (s, Some TypeError)
                else (s\<lparr>scheduleList := Some (schedule_html es),
                        timesTextarea := Some (serialize (times_Map s))\<rparr>, None))))"

text \<open>\<^verbatim>\<open>customTypes.updateTypesList\<close>: in the order of the map, not sorted.\<close>

definition types_html :: "js_Map \<Rightarrow> (string \<times> string) listing" where
  "types_html m = (if m = [] then Placeholder else Listing m)"

definition updateTypesList :: "page \<Rightarrow> page" where
  "updateTypesList s =
     (case customTypesList s of
        None \<Rightarrow> s
      | Some _ \<Rightarrow>
          (case customTypesTextarea s of
             None \<Rightarrow> s
           | Some _ \<Rightarrow>
               s\<lparr>customTypesList := Some (types_html (types_Map s)),
                  customTypesTextarea :=
                    Some (js_join [CHR 0x0A] (map entry_line (types_Map s)))\<rparr>))"

text \<open>\<^verbatim>\<open>customTypes.updateTypeDropdown\<close>: the options (text, value) that are not custom
  are kept, and \<^verbatim>\<open>new Option(`Custom: ${name}`, `custom:${name}`)\<close> is added for every
  custom type.\<close>

definition custom_option :: "string \<times> string \<Rightarrow> string \<times> string" where
  "custom_option e = (''Custom: '' @ fst e, ''custom:'' @ fst e)"

definition updateTypeDropdown :: "page \<Rightarrow> page" where
  "updateTypeDropdown s =
     (case newType s of
        None \<Rightarrow> s
      | Some options \<Rightarrow>
          s\<lparr>newType :=
               Some (filter (\<lambda>opt. \<not> startsWith (snd opt) ''custom:'') options
                     @ map custom_option (types_Map s))\<rparr>)"

text \<open>The optional \<^verbatim>\<open>colorData\<close>: \<open>None\<close> is \<^verbatim>\<open>null\<close>; otherwise the colour under a key
  (\<^verbatim>\<open>color3\<close>, \<^verbatim>\<open>color4\<close>), \<open>None\<close> when the entry or its colour is missing or empty.\<close>

type_synonym colorData = "(string \<Rightarrow> string option) option"

definition colorInfo :: "colorData \<Rightarrow> string \<Rightarrow> string" where
  "colorInfo colorData ty =
     (case colorData of
        None \<Rightarrow> []
      | Some colors \<Rightarrow>
          if ty = '':55'' \<or> ty = ''hour''
          then (case colors (if ty = '':55'' then ''color3'' else ''color4'') of
                  None \<Rightarrow> []
                | Some c \<Rightarrow> '' ('' @ c @ '')'')
          else [])"

text \<open>The \<^verbatim>\<open>forEach\<close> that renders the items, one \<^verbatim>\<open>insertAdjacentHTML\<close> each:
  \<^verbatim>\<open>type.startsWith\<close> throws a \<^verbatim>\<open>TypeError\<close> on an undefined \<^verbatim>\<open>type\<close>, and the items
  before it stay in the container.\<close>

fun render_upcoming :: "colorData \<Rightarrow> upcoming list \<Rightarrow> upcoming_view list \<times> exn option" where
  "render_upcoming colorData [] = ([], None)"
| "render_upcoming colorData (u # us) =
     (case type u of
        None \<Rightarrow> ([], Some TypeError)
      | Some ty \<Rightarrow>
          if formatTime_throws (time u) then ([], Some TypeError)
          else (case render_upcoming colorData us of (vs, e) \<Rightarrow>
                  (\<lparr>view_type = ty, view_time = time u, view_label = typeLabel ty,
                    view_colorInfo = colorInfo colorData ty,
                    view_minutes = minutesUntil u\<rparr> # vs, e)))"

text \<open>What the container holds after the items were rendered: the placeholder when there
  is no item, the rendered items otherwise, up to the one that throws.\<close>

definition upcoming_html ::
  "colorData \<Rightarrow> upcoming list \<Rightarrow> upcoming_view listing \<times> exn option" where
  "upcoming_html colorData items =
     (if items = [] then (Placeholder, None)
      else (case render_upcoming colorData items of (vs, e) \<Rightarrow> (Listing vs, e)))"

text \<open>\<^verbatim>\<open>updateUpcomingAnnouncements(colorData)\<close> at the instant \<open>now\<close>; the text is the
  \<^verbatim>\<open>value\<close> of the text area that \<^verbatim>\<open>updateScheduleList\<close> writes.\<close>

definition updateUpcomingAnnouncements ::
  "Number_fn \<Rightarrow> LocalTZA_fn \<Rightarrow> int \<Rightarrow> colorData \<Rightarrow> page \<Rightarrow> page \<times> exn option" where
  "updateUpcomingAnnouncements num tza now colorData s =
     (case upcomingList s of
        None \<Rightarrow> (s, None)
      | Some _ \<Rightarrow>
          (case timesTextarea s of
             None \<Rightarrow> (s, None)
           | Some raw \<Rightarrow>
               (case upcoming_html colorData
                       (upcoming_items num tza now (textarea_value raw)) of
                  (html, e) \<Rightarrow> (s\<lparr>upcomingList := Some html\<rparr>, e))))"

section \<open>Synchronisation with the remote store\<close>

text \<open>
  What a \<^verbatim>\<open>fetch\<close> followed by \<^verbatim>\<open>response.json()\<close> gives: a rejection of either promise
  with the message of its error, or \<^verbatim>\<open>response.ok\<close> and the JSON object of the body, of
  which the script reads four fields (\<open>None\<close> when a field is missing; the two mappings as
  \<^verbatim>\<open>Object.entries\<close> lists them).
\<close>

record body =
  body_status :: "string option"
  body_error :: "string option"
  body_times :: "(string \<times> string) list option"
  body_custom_types :: "(string \<times> string) list option"

datatype reply = Rejected string | Reply bool body

text \<open>\<^verbatim>\<open>result.error || fallback\<close>: the server's message unless it is missing or empty.\<close>

definition error_or :: "body \<Rightarrow> string \<Rightarrow> string" where
  "error_or result fallback =
     (case body_error result of
        None \<Rightarrow> fallback
      | Some e \<Rightarrow> if e = [] then fallback else e)"

text \<open>Statements in sequence inside a \<^verbatim>\<open>try\<close>: an exception skips the rest.\<close>

definition and_then ::
  "page \<times> exn option \<Rightarrow> (page \<Rightarrow> page \<times> exn option) \<Rightarrow> page \<times> exn option" where
  "and_then r f = (case r of (s, None) \<Rightarrow> f s | (s, Some e) \<Rightarrow> (s, Some e))"

text \<open>The block that replaces the schedule cache:
  \<^verbatim>\<open>times.clear(); Object.entries(data.times).forEach(...); updateScheduleList()\<close>.
  \<^verbatim>\<open>Object.entries\<close> throws a \<^verbatim>\<open>TypeError\<close> on a missing mapping, after the cache was
  cleared.\<close>

definition update_schedule_data ::
  "(string \<times> string) list option \<Rightarrow> page \<Rightarrow> page \<times> exn option" where
  "update_schedule_data data_times s =
     (let s1 = s\<lparr>times_Map := Map_clear (times_Map s)\<rparr> in
      case data_times of
        None \<Rightarrow> (s1, Some TypeError)
      | Some entries \<Rightarrow> updateScheduleList (s1\<lparr>times_Map := set_each (times_Map s1) entries\<rparr>))"

text \<open>The block that replaces the custom types:
  \<^verbatim>\<open>types.clear(); Object.entries(data.custom_types).forEach(...); updateTypesList(); updateTypeDropdown()\<close>.\<close>

definition update_custom_types ::
  "(string \<times> string) list option \<Rightarrow> page \<Rightarrow> page \<times> exn option" where
  "update_custom_types custom_types s =
     (let s1 = s\<lparr>types_Map := Map_clear (types_Map s)\<rparr> in
      case custom_types of
        None \<Rightarrow> (s1, Some TypeError)
      | Some custom \<Rightarrow>
          (updateTypeDropdown (updateTypesList
             (s1\<lparr>types_Map := set_each (types_Map s1) custom\<rparr>)), None))"

text \<open>What \<^verbatim>\<open>refreshState\<close> runs on a successful snapshot, inside its \<^verbatim>\<open>try\<close>: both blocks,
  then the projection.\<close>

definition apply_snapshot :: "Number_fn \<Rightarrow> LocalTZA_fn \<Rightarrow> int \<Rightarrow> body \<Rightarrow> page \<Rightarrow> page \<times> exn option" where
  "apply_snapshot num tza now data s =
     and_then
       (and_then (update_schedule_data (body_times data) s)
          (update_custom_types (body_custom_types data)))
       (updateUpcomingAnnouncements num tza now None)"

text \<open>\<^verbatim>\<open>refreshState\<close>: the \<^verbatim>\<open>catch\<close> logs to the console and nothing else. (The call of
  \<^verbatim>\<open>dayConfigManager.updateDayConfigInfo\<close> before the fetch writes the day-configuration
  elements only and catches its own errors.)\<close>

definition refreshState :: "Number_fn \<Rightarrow> LocalTZA_fn \<Rightarrow> int \<Rightarrow> reply \<Rightarrow> page \<Rightarrow> page" where
  "refreshState num tza now r s =
     (case r of
        Rejected msg \<Rightarrow> s
      | Reply ok data \<Rightarrow>
          if ok \<and> body_status data = Some ''success''
          then fst (apply_snapshot num tza now data s)
          else s)"

text \<open>\<^verbatim>\<open>scheduleEditor.refreshSchedule\<close>, the manual refresh: the custom types are replaced
  only when the reply has them, and the outcome is notified.\<close>

definition refreshSchedule_try :: "Number_fn \<Rightarrow> LocalTZA_fn \<Rightarrow> int \<Rightarrow> reply \<Rightarrow> page \<Rightarrow> page \<times> exn option" where
  "refreshSchedule_try num tza now r s =
     (case r of
        Rejected msg \<Rightarrow> (s, Some (Error msg))
      | Reply ok result \<Rightarrow>
          if \<not> ok then (s, Some (Error (error_or result ''Failed to refresh schedule'')))
          else
            and_then
              (and_then
                 (and_then (update_schedule_data (body_times result) s)
                    (\<lambda>s. case body_custom_types result of
                            None \<Rightarrow> (s, None)
                          | Some custom \<Rightarrow> update_custom_types (Some custom) s))
                 (updateUpcomingAnnouncements num tza now None))
              (\<lambda>s. (showNotification (Message ''Schedule refreshed successfully'')
                       ''success'' s, None)))"

definition refreshSchedule :: "Number_fn \<Rightarrow> LocalTZA_fn \<Rightarrow> int \<Rightarrow> reply \<Rightarrow> page \<Rightarrow> page" where
  "refreshSchedule num tza now r s =
     (case refreshSchedule_try num tza now r s of
        (s', None) \<Rightarrow> s'
      | (s', Some e) \<Rightarrow> showNotification (message_of e) ''error'' s')"

text \<open>
  The three mutations. Each sends one request; \<open>r\<close> is its reply, and \<open>r'\<close> with \<open>now\<close> is
  what the \<^verbatim>\<open>refreshState\<close> after a success meets, in the zone \<open>tza\<close>. The values of the
  input elements are arguments (\<open>None\<close> when the element is missing). A rejected request
  and a reply that is not \<^verbatim>\<open>ok\<close> both end in the \<^verbatim>\<open>catch\<close>, which notifies
  \<^verbatim>\<open>error.message\<close>.
\<close>

text \<open>\<^verbatim>\<open>scheduleEditor.addTime\<close>.\<close>

definition addTime ::
  "string option \<Rightarrow> string option \<Rightarrow> reply \<Rightarrow> Number_fn \<Rightarrow> LocalTZA_fn \<Rightarrow> int \<Rightarrow> reply \<Rightarrow> page \<Rightarrow> page" where
  "addTime timeInput typeSelect r num tza now r' s =
     (case timeInput of
        None \<Rightarrow> showNotification (Message ''Time input or type select not found'') ''error'' s
      | Some t \<Rightarrow>
          (case typeSelect of
             None \<Rightarrow>
               showNotification (Message ''Time input or type select not found'') ''error'' s
           | Some ty \<Rightarrow>
               if t = [] \<or> ty = []
               then showNotification
                      (Message ''Please select both time and announcement type'') ''warning'' s
               else
                 (case r of
                    Rejected msg \<Rightarrow> showNotification (Message msg) ''error'' s
                  | Reply ok result \<Rightarrow>
                      if \<not> ok
                      then showNotification
                             (Message (error_or result ''Failed to add time'')) ''error'' s
                      else refreshState num tza now r'
                             (showNotification (Message ''Time added successfully'')
                                ''success'' s))))"

text \<open>\<^verbatim>\<open>scheduleEditor.deleteTime(time)\<close>; \<open>confirmed\<close> is the operator's answer to the
  \<^verbatim>\<open>confirm\<close> dialog.\<close>

definition deleteTime ::
  "string \<Rightarrow> bool \<Rightarrow> reply \<Rightarrow> Number_fn \<Rightarrow> LocalTZA_fn \<Rightarrow> int \<Rightarrow> reply \<Rightarrow> page \<Rightarrow> page" where
  "deleteTime t confirmed r num tza now r' s =
     (if \<not> confirmed then s
      else
        (case r of
           Rejected msg \<Rightarrow> showNotification (Message msg) ''error'' s
         | Reply ok result \<Rightarrow>
             if \<not> ok
             then showNotification
                    (Message (error_or result ''Failed to delete time'')) ''error'' s
             else refreshState num tza now r'
                    (showNotification (Message ''Time deleted successfully'') ''success'' s)))"

text \<open>\<^verbatim>\<open>customTypes.addType\<close>; both values are trimmed. (On success the two input fields
  are emptied; they are not part of the page record.)\<close>

definition addType ::
  "string option \<Rightarrow> string option \<Rightarrow> reply \<Rightarrow> Number_fn \<Rightarrow> LocalTZA_fn \<Rightarrow> int \<Rightarrow> reply \<Rightarrow> page \<Rightarrow> page" where
  "addType nameInput templateInput r num tza now r' s =
     (case nameInput of
        None \<Rightarrow>
          showNotification (Message ''Name input or template input not found'') ''error'' s
      | Some n \<Rightarrow>
          (case templateInput of
             None \<Rightarrow>
               showNotification (Message ''Name input or template input not found'') ''error'' s
           | Some t \<Rightarrow>
               if js_trim n = [] \<or> js_trim t = []
               then showNotification (Message ''Please enter both name and template'') ''warning'' s
               else
                 (case r of
                    Rejected msg \<Rightarrow> showNotification (Message msg) ''error'' s
                  | Reply ok result \<Rightarrow>
                      if \<not> ok
                      then showNotification
                             (Message (error_or result ''Failed to add custom type'')) ''error'' s
                      else refreshState num tza now r'
                             (showNotification (Message ''Custom type added successfully'')
                                ''success'' s))))"

section \<open>Vocabulary of the properties\<close>










text \<open>A type token that a line of the text form can carry: no \<^verbatim>\<open>=\<close>, no line feed, no
  carriage return, no white space at either end.\<close>

definition line_safe :: "string \<Rightarrow> bool" where
  "line_safe ty =
     (CHR ''='' \<notin> set ty \<and> CHR 0x0A \<notin> set ty \<and> CHR 0x0D \<notin> set ty \<and> js_trim ty = ty)"

text \<open>The parse of a text read from the text area: the pair \<^verbatim>\<open>[timeStr, type]\<close> of every line the
  projection maps over.\<close>

definition parse_text :: "string \<Rightarrow> (string \<times> string option) list" where
  "parse_text txt = map parse_line (text_lines txt)"

text \<open>The mapping from time to type that the parse gives: the pairs with a type, a later line
  for the same time overriding an earlier one, as \<^verbatim>\<open>set\<close> does.\<close>

definition parsed_mapping :: "string \<Rightarrow> string \<Rightarrow> string option" where
  "parsed_mapping txt =
     map_of (rev (List.map_filter (\<lambda>p. map_option (Pair (fst p)) (snd p)) (parse_text txt)))"

text \<open>The message of a request that failed: the rejection's, or the server's error (or the
  fallback) of a reply that is not \<^verbatim>\<open>ok\<close>; \<open>None\<close> for a reply that is \<^verbatim>\<open>ok\<close>.\<close>

definition failure_message :: "reply \<Rightarrow> string \<Rightarrow> string option" where
  "failure_message r fallback =
     (case r of
        Rejected msg \<Rightarrow> Some msg
      | Reply ok result \<Rightarrow> if ok then None else Some (error_or result fallback))"

section \<open>Facts about the host library\<close>

subsection \<open>Strings\<close>

lemma digit_in: "digit n \<in> set ''0123456789''"
  unfolding digit_def by (rule nth_mem) simp


lemma digit_not_ws: "\<not> is_ws (digit n)"
  using digit_in [of n] by (auto simp: is_ws_def)

lemma digit_not_sep: "digit n \<notin> {CHR ''='', CHR '':'', CHR 0x0A, CHR '',''}"
  using digit_in [of n] by auto

lemma sep_not_in_pad2:
  "c \<in> {CHR ''='', CHR '':'', CHR 0x0A, CHR '',''} \<Longrightarrow> c \<notin> set (pad2 n)"
  using digit_not_sep [of n] digit_not_sep [of "n div 10"]
  unfolding pad2_def by fastforce

lemma dropWhile_id: "xs = [] \<or> \<not> P (hd xs) \<Longrightarrow> dropWhile P xs = xs"
  by (cases xs) auto

lemma js_trim_id: "s = [] \<or> (\<not> is_ws (hd s) \<and> \<not> is_ws (last s)) \<Longrightarrow> js_trim s = s"
  unfolding js_trim_def
  by (auto simp: dropWhile_id hd_rev)




lemma js_split_notin: "c \<notin> set s \<Longrightarrow> js_split c s = [s]"
  by (induction s) auto

lemma js_split_neq_Nil: "js_split c s \<noteq> []"
  by (induction s) (auto split: list.splits)

lemma js_split_append: "c \<notin> set a \<Longrightarrow> js_split c (a @ c # b) = a # js_split c b"
  by (induction a) (auto split: list.splits)



subsection \<open>Map\<close>

lemma fst_set_Map_set: "fst ` set (Map_set m k v) = insert k (fst ` set m)"
  by (induction m k v rule: Map_set.induct) auto

lemma map_fst_Map_set:
  "map fst (Map_set m k v) = (if k \<in> fst ` set m then map fst m else map fst m @ [k])"
  by (induction m k v rule: Map_set.induct) (auto simp: rev_image_eqI)

lemma distinct_Map_set: "distinct (map fst m) \<Longrightarrow> distinct (map fst (Map_set m k v))"
  by (simp add: map_fst_Map_set)

lemma distinct_set_each: "distinct (map fst m) \<Longrightarrow> distinct (map fst (set_each m es))"
  by (induction m es rule: set_each.induct) (simp_all add: distinct_Map_set)

lemma fst_set_set_each: "fst ` set (set_each m es) = fst ` set m \<union> fst ` set es"
  by (induction m es rule: set_each.induct) (auto simp: fst_set_Map_set)

lemma filter_key_Map_set:
  "distinct (map fst m) \<Longrightarrow> filter (\<lambda>e. fst e = k) (Map_set m k v) = [(k, v)]"
proof (induction m k v rule: Map_set.induct)
  case (1 k v)
  then show ?case by simp
next
  case (2 k' v' m k v)
  then show ?case
    by (auto simp: filter_empty_conv rev_image_eqI)
qed

subsection \<open>Sorting\<close>

lemma append_le_same_length:
  "length a = length b \<Longrightarrow> a @ x \<le> b @ y \<Longrightarrow> a \<le> (b :: string)"
proof (induction a b rule: list_induct2)
  case Nil
  then show ?case by simp
next
  case (Cons c cs d ds)
  then show ?case
    by (auto simp: list_le_def)
qed

lemma sorted_keys_of_entry_strings:
  assumes "sorted (map entry_string es)" and "\<forall>e \<in> set es. length (fst e) = n"
  shows "sorted (map fst es)"
  using assms
proof (induction es)
  case Nil
  then show ?case by simp
next
  case (Cons e es)
  have "fst e \<le> fst e'" if "e' \<in> set es" for e'
  proof -
    have "entry_string e \<le> entry_string e'"
      using Cons.prems(1) that by auto
    moreover have "length (fst e) = length (fst e')"
      using Cons.prems(2) that by simp
    ultimately show ?thesis
      unfolding entry_string_def by (rule append_le_same_length [rotated])
  qed
  with Cons show ?case by auto
qed

lemma valid_TimeKeyE:
  assumes "valid_TimeKey k"
  obtains h m where "h < 24" "m < 60" "k = TimeKey h m"
  using assms unfolding valid_TimeKey_def list_ex_iff by auto

lemma valid_TimeKey_TimeKey: "h < 24 \<Longrightarrow> m < 60 \<Longrightarrow> valid_TimeKey (TimeKey h m)"
  unfolding valid_TimeKey_def list_ex_iff
  by (intro bexI [of _ h] bexI [of _ m]) simp_all

lemma length_TimeKey: "length (TimeKey h m) = 5"
  by (simp add: TimeKey_def pad2_def)

lemma split_colon_TimeKey: "js_split (CHR '':'') (TimeKey h m) = [pad2 h, pad2 m]"
proof -
  have a: "CHR '':'' \<notin> set (pad2 n)" for n
    by (rule sep_not_in_pad2) simp
  show ?thesis
    unfolding TimeKey_def
    by (simp add: js_split_append [OF a] js_split_notin [OF a])
qed

lemma formatTime_TimeKey: "\<not> formatTime_throws (TimeKey h m)"
  by (simp add: formatTime_throws_def split_colon_TimeKey)

section \<open>The schedule cache\<close>

text \<open>
  Claim C5. On a map with one entry per key, \<open>set(t, A)\<close> followed by \<open>set(t, B)\<close> leaves
  exactly one entry for \<open>t\<close>, with type \<open>B\<close>, in the map and in the sorted list made of it;
  the second \<open>set\<close> adds no key.
\<close>

theorem set_twice_last_wins:
  assumes "distinct (map fst m)"
  shows "filter (\<lambda>e. fst e = t) (Map_set (Map_set m t A) t B) = [(t, B)]
       \<and> filter (\<lambda>e. fst e = t) (timeEntries (Map_set (Map_set m t A) t B)) = [(t, B)]
       \<and> map fst (Map_set (Map_set m t A) t B) = map fst (Map_set m t A)"
proof -
  have d: "distinct (map fst (Map_set m t A))"
    using assms by (rule distinct_Map_set)
  have f: "filter (\<lambda>e. fst e = t) (Map_set (Map_set m t A) t B) = [(t, B)]"
    using d by (rule filter_key_Map_set)
  have "filter (\<lambda>e. fst e = t) (timeEntries (Map_set (Map_set m t A) t B))
      = sort_key entry_string (filter (\<lambda>e. fst e = t) (Map_set (Map_set m t A) t B))"
    unfolding timeEntries_def by (rule filter_sort)
  with f show ?thesis
    by (simp add: map_fst_Map_set fst_set_Map_set)
qed

theorem set_twice_last_wins_witness:
  "distinct (map fst [(''09:00'', ''rules''), (''10:00'', ''ad'')])
   \<and> Map_set (Map_set [(''09:00'', ''rules''), (''10:00'', ''ad'')] ''10:00'' ''hour'') ''10:00'' '':55''
       = [(''09:00'', ''rules''), (''10:00'', '':55'')]
   \<and> filter (\<lambda>e. fst e = ''10:00'')
        (timeEntries (Map_set (Map_set [(''09:00'', ''rules''), (''10:00'', ''ad'')]
           ''10:00'' ''hour'') ''10:00'' '':55''))
       = [(''10:00'', '':55'')]"
  using set_twice_last_wins [of "[(''09:00'', ''rules''), (''10:00'', ''ad'')]"
      "''10:00''" "''hour''" "'':55''"]
  by simp

lemma sorted_timeEntries:
  assumes "\<forall>e \<in> set m. valid_TimeKey (fst e)"
  shows "sorted (map fst (timeEntries m))"
proof (rule sorted_keys_of_entry_strings [where n = 5])
  show "sorted (map entry_string (timeEntries m))"
    unfolding timeEntries_def by (rule sorted_sort_key)
  show "\<forall>e \<in> set (timeEntries m). length (fst e) = 5"
    using assms by (auto simp: timeEntries_def elim!: valid_TimeKeyE simp: length_TimeKey)
qed

lemma distinct_timeEntries:
  "distinct (map fst m) \<Longrightarrow> distinct (map fst (timeEntries m))"
  unfolding timeEntries_def
  by (metis distinct_map distinct_sort set_sort)

lemma no_throw_timeEntries:
  assumes "\<forall>e \<in> set m. valid_TimeKey (fst e)"
  shows "\<not> list_ex (\<lambda>e. formatTime_throws (fst e)) (timeEntries m)"
  using assms
  by (auto simp: list_ex_iff timeEntries_def formatTime_TimeKey elim!: valid_TimeKeyE)

text \<open>
  Claim C4. After any sequence of \<open>set\<close> calls on canonical keys, in any order, the entries
  that \<open>updateScheduleList\<close> renders are sorted ascending by key under the order on strings,
  with no key twice; the items of the rendered list carry the keys in that order, and the
  text written to the text area is the lines of these entries in the same order.
\<close>

theorem list_sorted_by_TimeKey:
  assumes "\<forall>e \<in> set ops. valid_TimeKey (fst e)"
  shows "sorted (map fst (timeEntries (set_each [] ops)))
       \<and> distinct (map fst (timeEntries (set_each [] ops)))
       \<and> map item_time (map schedule_item_of (timeEntries (set_each [] ops)))
           = map fst (timeEntries (set_each [] ops))
       \<and> serialize (set_each [] ops)
           = js_join [CHR 0x0A] (map entry_line (timeEntries (set_each [] ops)))
       \<and> (\<forall>s l txt. times_Map s = set_each [] ops \<and> scheduleList s = Some l
             \<and> timesTextarea s = Some txt \<and> ops \<noteq> [] \<longrightarrow>
           updateScheduleList s
             = (s\<lparr>scheduleList :=
                    Some (Listing (map schedule_item_of (timeEntries (set_each [] ops)))),
                  timesTextarea := Some (serialize (set_each [] ops))\<rparr>, None))"
proof -
  let ?m = "set_each [] ops"
  have v: "\<forall>e \<in> set ?m. valid_TimeKey (fst e)"
  proof
    fix e
    assume "e \<in> set ?m"
    then have "fst e \<in> fst ` set ?m"
      by (rule imageI)
    then have "fst e \<in> fst ` set ops"
      by (simp add: fst_set_set_each)
    then obtain e' where "e' \<in> set ops" "fst e = fst e'"
      by auto
    with assms show "valid_TimeKey (fst e)"
      by auto
  qed
  have d: "distinct (map fst ?m)"
    by (rule distinct_set_each) simp
  have ne: "timeEntries ?m \<noteq> []" if "ops \<noteq> []"
  proof -
    have "fst ` set ?m \<noteq> {}"
      using that by (simp add: fst_set_set_each)
    then have "?m \<noteq> []"
      by auto
    then show ?thesis
      unfolding timeEntries_def by (metis length_0_conv length_sort)
  qed
  show ?thesis
    using sorted_timeEntries [OF v] distinct_timeEntries [OF d] no_throw_timeEntries [OF v] ne
    by (simp add: serialize_def updateScheduleList_def schedule_html_def Let_def
        schedule_item_of_def)
qed

theorem list_sorted_by_TimeKey_witness:
  "valid_TimeKey ''10:55'' \<and> valid_TimeKey ''09:30'' \<and> valid_TimeKey ''10:00''
   \<and> timeEntries (set_each [] [(''10:55'', '':55''), (''09:30'', ''rules''), (''10:00'', ''hour'')])
       = [(''09:30'', ''rules''), (''10:00'', ''hour''), (''10:55'', '':55'')]
   \<and> sorted (map fst (timeEntries
         (set_each [] [(''10:55'', '':55''), (''09:30'', ''rules''), (''10:00'', ''hour'')])))
   \<and> serialize (set_each [] [(''10:55'', '':55''), (''09:30'', ''rules''), (''10:00'', ''hour'')])
       = ''09:30 = rules'' @ [CHR 0x0A] @ ''10:00 = hour'' @ [CHR 0x0A] @ ''10:55 = :55''"
proof -
  have v: "\<forall>e \<in> set [(''10:55'', '':55''), (''09:30'', ''rules''), (''10:00'', ''hour'')].
             valid_TimeKey (fst e)"
    using valid_TimeKey_TimeKey [of 10 55] valid_TimeKey_TimeKey [of 9 30]
      valid_TimeKey_TimeKey [of 10 0]
    by (simp add: TimeKey_def pad2_def digit_def)
  have e: "timeEntries (set_each [] [(''10:55'', '':55''), (''09:30'', ''rules''), (''10:00'', ''hour'')])
       = [(''09:30'', ''rules''), (''10:00'', ''hour''), (''10:55'', '':55'')]"
    by (simp add: timeEntries_def entry_string_def)
  show ?thesis
    using v e list_sorted_by_TimeKey [OF v]
    by (simp add: entry_line_def)
qed

section \<open>Labels of type tokens\<close>

text \<open>
  Claim C6, as the code has it. The label of a custom token \<open>custom:name\<close> is the name
  after the prefix \<open>Custom: \<close> (not the bare name); the four built-in tokens have their
  fixed labels; any other token that is not the name of a property inherited from
  \<open>Object.prototype\<close> is its own label.
\<close>

theorem typeLabel_table:
  "typeLabel (''custom:'' @ name) = Text (''Custom: '' @ name)
   \<and> typeLabel '':55'' = Text ''Color Warning''
   \<and> typeLabel ''hour'' = Text ''Hour Change''
   \<and> typeLabel ''rules'' = Text ''Rules''
   \<and> typeLabel ''ad'' = Text ''Advertisement''
   \<and> (\<not> startsWith ty ''custom:'' \<and> ty \<notin> {'':55'', ''hour'', ''rules'', ''ad''}
        \<and> ty \<notin> set Object_prototype_names \<longrightarrow> typeLabel ty = Text ty)"
  by (simp add: typeLabel_def typeLabels_def startsWith_def)

theorem typeLabel_table_witness:
  "typeLabel ''custom:vip'' = Text ''Custom: vip'' \<and> typeLabel ''intermission'' = Text ''intermission''"
  using typeLabel_table [of "''vip''" "''intermission''"]
  by (simp add: startsWith_def Object_prototype_names_def)

text \<open>Claim C6 as stated fails: the label of \<open>custom:vip\<close> is not the bare name \<open>vip\<close>.\<close>

theorem typeLabel_bare_name_counterexample:
  "typeLabel ''custom:vip'' \<noteq> Text ''vip'' \<and> typeLabel ''custom:vip'' = Text ''Custom: vip''"
  by (simp add: typeLabel_def startsWith_def)

section \<open>The projection on canonical keys\<close>

subsection \<open>Lines of the text form\<close>

lemma js_trim_Cons_ws: "is_ws c \<Longrightarrow> js_trim (c # s) = js_trim s"
  by (simp add: js_trim_def)

lemma js_trim_snoc_ws:
  assumes "is_ws c"
  shows "js_trim (s @ [c]) = js_trim s"
proof (cases "\<forall>x \<in> set s. is_ws x")
  case True
  then have a: "dropWhile is_ws s = []"
    by simp
  have b: "dropWhile is_ws (s @ [c]) = []"
    using True assms by simp
  show ?thesis
    unfolding js_trim_def a b by simp
next
  case False
  then have "dropWhile is_ws (s @ [c]) = dropWhile is_ws s @ [c]"
    by (auto simp: dropWhile_append1)
  then show ?thesis
    using assms by (simp add: js_trim_def)
qed

lemma is_ws_space: "is_ws (CHR '' '')"
  by (simp add: is_ws_def)

lemma js_trim_TimeKey: "js_trim (TimeKey h m) = TimeKey h m"
  by (rule js_trim_id) (simp add: TimeKey_def pad2_def digit_not_ws)

lemma eq_notin_TimeKey: "CHR ''='' \<notin> set (TimeKey h m)"
  using sep_not_in_pad2 [of "CHR ''=''"] by (simp add: TimeKey_def)

lemma parse_line_entry:
  assumes "CHR ''='' \<notin> set k"
  shows "\<exists>p ps. js_split (CHR ''='') ('' '' @ v) = p # ps
           \<and> parse_line (entry_line (k, v)) = (js_trim k, Some (js_trim p))"
proof -
  obtain p ps where s: "js_split (CHR ''='') ('' '' @ v) = p # ps"
    using js_split_neq_Nil [of "CHR ''=''" "'' '' @ v"] by (cases "js_split (CHR ''='') ('' '' @ v)") auto
  have "CHR ''='' \<notin> set (k @ '' '')"
    using assms by simp
  then have "js_split (CHR ''='') ((k @ '' '') @ CHR ''='' # ('' '' @ v))
      = (k @ '' '') # js_split (CHR ''='') ('' '' @ v)"
    by (rule js_split_append)
  moreover have "entry_line (k, v) = (k @ '' '') @ CHR ''='' # ('' '' @ v)"
    by (simp add: entry_line_def)
  ultimately have "js_split (CHR ''='') (entry_line (k, v)) = (k @ '' '') # p # ps"
    using s by simp
  then have "parse_line (entry_line (k, v)) = (js_trim (k @ '' ''), Some (js_trim p))"
    by (simp add: parse_line_def)
  with s show ?thesis
    by (simp add: js_trim_snoc_ws is_ws_space)
qed


subsection \<open>Dates on canonical keys\<close>



















subsection \<open>The entry of the current minute\<close>






section \<open>The text form and its parse\<close>

subsection \<open>Splitting and joining lines\<close>

lemma js_split_js_join:
  assumes "ls \<noteq> []" "\<forall>l \<in> set ls. c \<notin> set l"
  shows "js_split c (js_join [c] ls) = ls"
  using assms
proof (induction "[c]" ls rule: js_join.induct)
  case 1
  then show ?case by simp
next
  case (2 p)
  then show ?case by (simp add: js_split_notin)
next
  case (3 p q ps)
  then show ?case by (simp add: js_split_append)
qed

lemma js_join_snoc_append:
  "js_join sep (ls @ [l @ x]) = js_join sep (ls @ [l]) @ x"
proof (induction ls)
  case Nil
  then show ?case by simp
next
  case (Cons a ls)
  then show ?case by (cases ls) simp_all
qed

lemma hd_js_join: "l \<noteq> [] \<Longrightarrow> hd (js_join sep (l # ls)) = hd l"
  by (cases ls) simp_all

lemma js_join_neq_Nil: "l \<noteq> [] \<Longrightarrow> js_join sep (ls @ [l]) \<noteq> []"
proof (induction ls)
  case Nil
  then show ?case by simp
next
  case (Cons a ls)
  then show ?case by (cases ls) simp_all
qed

lemma last_js_join: "l \<noteq> [] \<Longrightarrow> last (js_join sep (ls @ [l])) = last l"
proof (induction ls)
  case Nil
  then show ?case by simp
next
  case (Cons a ls)
  then show ?case
    using js_join_neq_Nil [of l sep ls] by (cases ls) simp_all
qed

lemma dropWhile_same:
  assumes "dropWhile P xs = xs" "xs \<noteq> []"
  shows "\<not> P (hd xs)"
proof
  assume p: "P (hd xs)"
  obtain x xs' where x: "xs = x # xs'"
    using assms(2) by (cases xs) auto
  have "length (dropWhile P xs') \<le> length xs'"
    by (rule length_dropWhile_le)
  moreover have "dropWhile P xs' = x # xs'"
    using assms(1) p x by simp
  ultimately show False
    by simp
qed

lemma js_trim_same:
  assumes "js_trim v = v" "v \<noteq> []"
  shows "\<not> is_ws (hd v) \<and> \<not> is_ws (last v)"
proof -
  have l1: "length (dropWhile is_ws (rev (dropWhile is_ws v))) \<le> length (dropWhile is_ws v)"
    using length_dropWhile_le [of is_ws "rev (dropWhile is_ws v)"] by simp
  have l2: "length (dropWhile is_ws v) \<le> length v"
    by (rule length_dropWhile_le)
  have "length (js_trim v) = length v"
    using assms(1) by simp
  then have e: "length (dropWhile is_ws (rev (dropWhile is_ws v))) = length v"
    by (simp add: js_trim_def)
  with l1 l2 have "length (dropWhile is_ws v) = length v"
    by linarith
  then have a: "dropWhile is_ws v = v"
    by (metis append_eq_conv_conj takeWhile_dropWhile_id length_0_conv self_append_conv2
        append_self_conv2 length_append add_cancel_left_left)
  then have "dropWhile is_ws (rev v) = rev v"
    using assms(1) by (metis js_trim_def rev_rev_ident)
  then have "\<not> is_ws (hd (rev v))"
    using assms(2) by (intro dropWhile_same) simp_all
  moreover have "\<not> is_ws (hd v)"
    using a assms(2) by (rule dropWhile_same)
  ultimately show ?thesis
    using assms(2) by (simp add: hd_rev)
qed

lemma js_trim_neq_Nil: "l \<noteq> [] \<Longrightarrow> \<not> is_ws (hd l) \<Longrightarrow> js_trim l \<noteq> []"
  by (cases l) (auto simp: js_trim_def dropWhile_eq_Nil_conv)

lemma text_lines_js_join:
  assumes "ls \<noteq> []"
    and "\<forall>l \<in> set ls. l \<noteq> [] \<and> \<not> is_ws (hd l) \<and> CHR 0x0A \<notin> set l"
    and "\<not> is_ws (last (last ls))"
  shows "text_lines (js_join [CHR 0x0A] ls) = ls"
proof -
  let ?t = "js_join [CHR 0x0A] ls"
  obtain l ls' where c: "ls = l # ls'"
    using assms(1) by (cases ls) auto
  have s: "ls = butlast ls @ [last ls]"
    using assms(1) by simp
  have n: "last ls \<noteq> []" "l \<noteq> []" "\<not> is_ws (hd l)"
    using assms(1,2) c by auto
  have "?t \<noteq> []"
    using js_join_neq_Nil [OF n(1), of "[CHR 0x0A]" "butlast ls"] s by simp
  moreover have "hd ?t = hd l"
    unfolding c using n(2) by (rule hd_js_join)
  moreover have "last ?t = last (last ls)"
    using last_js_join [OF n(1), of "[CHR 0x0A]" "butlast ls"] s by simp
  ultimately have "js_trim ?t = ?t"
    using n(3) assms(3) by (intro js_trim_id) simp
  moreover have "js_split (CHR 0x0A) ?t = ls"
    using assms(1,2) by (intro js_split_js_join) auto
  moreover have "filter (\<lambda>line. js_trim line \<noteq> []) ls = ls"
    using assms(2) by (auto simp: js_trim_neq_Nil)
  ultimately show ?thesis
    by (simp add: text_lines_def)
qed

lemma text_lines_snoc_ws:
  "is_ws c \<Longrightarrow> text_lines (t @ [c]) = text_lines t"
  by (simp add: text_lines_def js_trim_snoc_ws)

subsection \<open>Lines of entries\<close>

lemma hd_TimeKey: "TimeKey h m \<noteq> [] \<and> \<not> is_ws (hd (TimeKey h m))"
  by (simp add: TimeKey_def pad2_def digit_not_ws)

lemma nl_notin_TimeKey: "CHR 0x0A \<notin> set (TimeKey h m)"
  using sep_not_in_pad2 [of "CHR 0x0A"] by (simp add: TimeKey_def)

lemma digit_not_cr: "digit n \<noteq> CHR 0x0D"
  using digit_in [of n] by auto

lemma cr_notin_TimeKey: "CHR 0x0D \<notin> set (TimeKey h m)"
  by (simp add: TimeKey_def pad2_def digit_not_cr [THEN not_sym])

lemma textarea_value_id: "CHR 0x0D \<notin> set s \<Longrightarrow> textarea_value s = s"
  unfolding textarea_value_def by (induction s) auto

lemma set_js_join: "set (js_join sep ls) \<subseteq> set sep \<union> \<Union> (set ` set ls)"
  by (induction sep ls rule: js_join.induct) auto

lemma parse_entry_line:
  assumes "valid_TimeKey k" "line_safe v"
  shows "parse_line (entry_line (k, v)) = (k, Some v)"
proof -
  obtain h m where k: "k = TimeKey h m"
    using assms(1) by (rule valid_TimeKeyE)
  have "CHR ''='' \<notin> set ('' '' @ v)"
    using assms(2) by (simp add: line_safe_def)
  then have "js_split (CHR ''='') ('' '' @ v) = ['' '' @ v]"
    by (rule js_split_notin)
  moreover have "js_trim ('' '' @ v) = v"
    using assms(2) by (simp add: line_safe_def js_trim_Cons_ws is_ws_space)
  ultimately show ?thesis
    using parse_line_entry [OF eq_notin_TimeKey [of h m], of v] k
    by (auto simp: js_trim_TimeKey)
qed

lemma parse_entry_line_empty:
  assumes "valid_TimeKey k"
  shows "parse_line (k @ '' ='') = (k, Some [])"
proof -
  obtain h m where k: "k = TimeKey h m"
    using assms(1) by (rule valid_TimeKeyE)
  have "CHR ''='' \<notin> set (k @ '' '')"
    using eq_notin_TimeKey [of h m] k by simp
  then have "js_split (CHR ''='') ((k @ '' '') @ CHR ''='' # []) = (k @ '' '') # js_split (CHR ''='') []"
    by (rule js_split_append)
  then have "js_split (CHR ''='') (k @ '' ='') = [k @ '' '', []]"
    by simp
  moreover have "js_trim [] = []"
    by (simp add: js_trim_def)
  ultimately show ?thesis
    using k by (simp add: parse_line_def js_trim_snoc_ws is_ws_space js_trim_TimeKey)
qed

lemma parse_entry_line_pair:
  "valid_TimeKey (fst e) \<Longrightarrow> line_safe (snd e) \<Longrightarrow> parse_line (entry_line e) = (fst e, Some (snd e))"
  by (cases e) (simp add: parse_entry_line)

lemma entry_line_shape:
  assumes "valid_TimeKey (fst e)" "line_safe (snd e)"
  shows "entry_line e \<noteq> [] \<and> \<not> is_ws (hd (entry_line e)) \<and> CHR 0x0A \<notin> set (entry_line e)"
proof -
  obtain h m where k: "fst e = TimeKey h m"
    using assms(1) by (rule valid_TimeKeyE)
  show ?thesis
    using hd_TimeKey [of h m] nl_notin_TimeKey [of h m] assms(2) k
    by (simp add: entry_line_def line_safe_def)
qed

lemma parse_text_entry_lines:
  assumes "\<forall>e \<in> set es. valid_TimeKey (fst e) \<and> line_safe (snd e)"
  shows "parse_text (js_join [CHR 0x0A] (map entry_line es)) = map (\<lambda>e. (fst e, Some (snd e))) es"
proof (cases es rule: rev_cases)
  case Nil
  then show ?thesis
    by (simp add: parse_text_def text_lines_def js_trim_def)
next
  case (snoc es' e)
  obtain k v where e: "e = (k, v)"
    by (cases e)
  have ve: "valid_TimeKey k" "line_safe v"
    using assms snoc e by auto
  obtain h m where k: "k = TimeKey h m"
    using ve(1) by (rule valid_TimeKeyE)
  have shape: "\<forall>l \<in> set (map entry_line es'). l \<noteq> [] \<and> \<not> is_ws (hd l) \<and> CHR 0x0A \<notin> set l"
    using assms snoc by (auto dest!: entry_line_shape [rotated -1])
  have p: "map parse_line (map entry_line es') = map (\<lambda>e. (fst e, Some (snd e))) es'"
    using assms snoc by (auto simp: parse_entry_line)
  show ?thesis
  proof (cases "v = []")
    case True
    let ?l = "k @ '' =''"
    have "entry_line e = ?l @ '' ''"
      using e True by (simp add: entry_line_def)
    then have "js_join [CHR 0x0A] (map entry_line es)
        = js_join [CHR 0x0A] (map entry_line es' @ [?l]) @ '' ''"
      using snoc by (simp add: js_join_snoc_append [symmetric])
    then have "text_lines (js_join [CHR 0x0A] (map entry_line es))
        = text_lines (js_join [CHR 0x0A] (map entry_line es' @ [?l]))"
      by (simp add: text_lines_snoc_ws is_ws_space)
    also have "\<dots> = map entry_line es' @ [?l]"
    proof (rule text_lines_js_join)
      show "map entry_line es' @ [?l] \<noteq> []"
        by simp
      show "\<forall>l \<in> set (map entry_line es' @ [?l]).
              l \<noteq> [] \<and> \<not> is_ws (hd l) \<and> CHR 0x0A \<notin> set l"
        using shape hd_TimeKey [of h m] nl_notin_TimeKey [of h m] k by simp
      show "\<not> is_ws (last (last (map entry_line es' @ [?l])))"
        by (simp add: is_ws_def)
    qed
    finally show ?thesis
      using p e True parse_entry_line_empty [OF ve(1)] snoc
      by (simp add: parse_text_def)
  next
    case False
    have "text_lines (js_join [CHR 0x0A] (map entry_line es)) = map entry_line es"
    proof (rule text_lines_js_join)
      show "map entry_line es \<noteq> []"
        using snoc by simp
      show "\<forall>l \<in> set (map entry_line es). l \<noteq> [] \<and> \<not> is_ws (hd l) \<and> CHR 0x0A \<notin> set l"
        using assms by (auto dest!: entry_line_shape [rotated -1])
      have "last (entry_line e) = last v"
        using False e by (simp add: entry_line_def)
      moreover have "\<not> is_ws (last v)"
        using js_trim_same [of v] ve(2) False by (simp add: line_safe_def)
      ultimately show "\<not> is_ws (last (last (map entry_line es)))"
        using snoc by simp
    qed
    then show ?thesis
      using assms by (simp add: parse_text_def parse_entry_line_pair)
  qed
qed

lemma cr_notin_entry_lines:
  assumes "\<forall>e \<in> set es. valid_TimeKey (fst e) \<and> line_safe (snd e)"
  shows "CHR 0x0D \<notin> set (js_join [CHR 0x0A] (map entry_line es))"
proof -
  have "CHR 0x0D \<notin> set (entry_line e)" if "e \<in> set es" for e
  proof -
    have e: "valid_TimeKey (fst e)" "CHR 0x0D \<notin> set (snd e)"
      using assms that by (simp_all add: line_safe_def)
    obtain h m where "fst e = TimeKey h m"
      using e(1) by (rule valid_TimeKeyE)
    then show ?thesis
      using e(2) cr_notin_TimeKey [of h m] by (simp add: entry_line_def)
  qed
  then have "\<forall>l \<in> set (map entry_line es). CHR 0x0D \<notin> set l"
    by simp
  moreover have "CHR 0x0D \<notin> set [CHR 0x0A]"
    by simp
  ultimately have "CHR 0x0D \<notin> set [CHR 0x0A] \<union> \<Union> (set ` set (map entry_line es))"
    by blast
  then show ?thesis
    using set_js_join [of "[CHR 0x0A]" "map entry_line es"] by (rule contra_subsetD [rotated])
qed

lemma textarea_value_entry_lines:
  assumes "\<forall>e \<in> set es. valid_TimeKey (fst e) \<and> line_safe (snd e)"
  shows "textarea_value (js_join [CHR 0x0A] (map entry_line es))
       = js_join [CHR 0x0A] (map entry_line es)"
  using cr_notin_entry_lines [OF assms] by (rule textarea_value_id)

subsection \<open>The mapping of a map\<close>

lemma map_of_Map_set: "map_of (Map_set m k v) = (map_of m)(k \<mapsto> v)"
  by (induction m k v rule: Map_set.induct) auto

lemma map_of_set_each: "map_of (set_each m es) = map_of m ++ map_of (rev es)"
proof (induction m es rule: set_each.induct)
  case (1 m)
  then show ?case by simp
next
  case (2 m k v es)
  have "map_of (set_each m ((k, v) # es)) = map_of (set_each (Map_set m k v) es)"
    by simp
  also have "\<dots> = map_of (Map_set m k v) ++ map_of (rev es)"
    by (rule 2)
  also have "\<dots> = (map_of m)(k \<mapsto> v) ++ map_of (rev es)"
    by (simp only: map_of_Map_set)
  also have "\<dots> = map_of m ++ (map_of (rev es @ [(k, v)]))"
    by (auto simp: map_add_def fun_eq_iff split: option.splits)
  finally show ?case
    by simp
qed

lemma set_Map_set: "set (Map_set m k v) \<subseteq> insert (k, v) (set m)"
  by (induction m k v rule: Map_set.induct) auto

lemma set_set_each: "set (set_each m es) \<subseteq> set m \<union> set es"
proof (induction m es rule: set_each.induct)
  case (1 m)
  then show ?case by simp
next
  case (2 m k v es)
  then show ?case
    using set_Map_set [of m k v] by auto
qed

lemma map_filter_typed:
  "List.map_filter (\<lambda>p. map_option (Pair (fst p)) (snd p)) (map (\<lambda>e. (fst e, Some (snd e))) es) = es"
  by (induction es) simp_all

text \<open>
  Claim C3, as the code has it. For every snapshot whose keys are canonical and whose type
  tokens have no \<open>=\<close>, no line feed, no carriage return and no white space at either end,
  the text area gives back the serialization of the cache as it was written, and its parse
  gives back the entries of the sorted list, each with its type, and so the mapping of the
  cache, which is the mapping of the snapshot.
\<close>

theorem serialize_round_trip:
  assumes "\<forall>e \<in> set entries. valid_TimeKey (fst e) \<and> line_safe (snd e)"
  shows "textarea_value (serialize (set_each [] entries)) = serialize (set_each [] entries)
       \<and> parse_text (textarea_value (serialize (set_each [] entries)))
           = map (\<lambda>e. (fst e, Some (snd e))) (timeEntries (set_each [] entries))
       \<and> parsed_mapping (textarea_value (serialize (set_each [] entries)))
           = map_of (set_each [] entries)
       \<and> map_of (set_each [] entries) = map_of (rev entries)"
proof -
  let ?m = "set_each [] entries"
  have v: "\<forall>e \<in> set (timeEntries ?m). valid_TimeKey (fst e) \<and> line_safe (snd e)"
    using assms set_set_each [of "[]" entries] by (auto simp: timeEntries_def)
  have t: "textarea_value (serialize ?m) = serialize ?m"
    unfolding serialize_def using v by (rule textarea_value_entry_lines)
  have p: "parse_text (serialize ?m) = map (\<lambda>e. (fst e, Some (snd e))) (timeEntries ?m)"
    unfolding serialize_def using v by (rule parse_text_entry_lines)
  have d: "distinct (map fst ?m)"
    by (rule distinct_set_each) simp
  then have d': "distinct (map fst (rev (timeEntries ?m)))"
    using distinct_timeEntries [OF d] by (simp add: rev_map [symmetric])
  have "set (rev (timeEntries ?m)) = set ?m"
    by (simp add: timeEntries_def)
  then have "map_of (rev (timeEntries ?m)) = map_of ?m"
    using d d' by (simp add: map_of_inject_set)
  then have "parsed_mapping (serialize ?m) = map_of ?m"
    by (simp add: parsed_mapping_def p map_filter_typed)
  with p t show ?thesis
    by (simp add: map_of_set_each)
qed

theorem serialize_round_trip_witness:
  "valid_TimeKey ''10:55'' \<and> line_safe '':55'' \<and> valid_TimeKey ''10:00'' \<and> line_safe ''custom:vip''
   \<and> parse_text (textarea_value
        (serialize (set_each [] [(''10:55'', '':55''), (''10:00'', ''custom:vip'')])))
       = [(''10:00'', Some ''custom:vip''), (''10:55'', Some '':55'')]
   \<and> parsed_mapping (textarea_value
        (serialize (set_each [] [(''10:55'', '':55''), (''10:00'', ''custom:vip'')])))
       = map_of [(''10:55'', '':55''), (''10:00'', ''custom:vip'')]"
proof -
  have v: "valid_TimeKey ''10:55''" "valid_TimeKey ''10:00''"
    using valid_TimeKey_TimeKey [of 10 55] valid_TimeKey_TimeKey [of 10 0]
    by (simp_all add: TimeKey_def pad2_def digit_def)
  have l: "line_safe '':55''" "line_safe ''custom:vip''"
    by (simp_all add: line_safe_def js_trim_def is_ws_def)
  have a: "\<forall>e \<in> set [(''10:55'', '':55''), (''10:00'', ''custom:vip'')].
             valid_TimeKey (fst e) \<and> line_safe (snd e)"
    using v l by simp
  have t: "timeEntries (set_each [] [(''10:55'', '':55''), (''10:00'', ''custom:vip'')])
      = [(''10:00'', ''custom:vip''), (''10:55'', '':55'')]"
    by (simp add: timeEntries_def entry_string_def)
  have m: "set_each [] [(''10:55'', '':55''), (''10:00'', ''custom:vip'')]
      = [(''10:55'', '':55''), (''10:00'', ''custom:vip'')]"
    by simp
  have "parse_text (textarea_value
        (serialize (set_each [] [(''10:55'', '':55''), (''10:00'', ''custom:vip'')])))
       = map (\<lambda>e. (fst e, Some (snd e)))
           (timeEntries (set_each [] [(''10:55'', '':55''), (''10:00'', ''custom:vip'')]))"
    and "parsed_mapping (textarea_value
        (serialize (set_each [] [(''10:55'', '':55''), (''10:00'', ''custom:vip'')])))
       = map_of (set_each [] [(''10:55'', '':55''), (''10:00'', ''custom:vip'')])"
    using serialize_round_trip [OF a] by (rule conjunct2 [THEN conjunct1],
        rule conjunct2 [THEN conjunct2, THEN conjunct1])
  then show ?thesis
    using v l unfolding t unfolding m by simp
qed

text \<open>Claim C3 as stated fails on type tokens the text form cannot carry: the part of a
  token after a \<open>=\<close> is lost, white space at its end is lost, and a line feed in it, or a
  carriage return, which the text area gives back as a line feed, breaks the line.\<close>

theorem serialize_round_trip_counterexample:
  "valid_TimeKey ''10:00''
   \<and> map_of (set_each [] [(''10:00'', ''custom:a=b'')]) ''10:00'' = Some ''custom:a=b''
   \<and> parsed_mapping (textarea_value (serialize (set_each [] [(''10:00'', ''custom:a=b'')])))
       ''10:00'' = Some ''custom:a''
   \<and> parse_text (textarea_value (serialize (set_each [] [(''10:00'', ''custom:a=b'')])))
       = [(''10:00'', Some ''custom:a'')]
   \<and> parse_text (textarea_value (serialize (set_each [] [(''10:00'', ''custom:vip '')])))
       = [(''10:00'', Some ''custom:vip'')]
   \<and> parse_text (textarea_value
        (serialize (set_each [] [(''10:00'', ''custom:a'' @ [CHR 0x0A] @ ''b'')])))
       = [(''10:00'', Some ''custom:a''), (''b'', None)]
   \<and> parse_text (textarea_value
        (serialize (set_each [] [(''10:00'', ''custom:a'' @ [CHR 0x0D] @ ''b'')])))
       = [(''10:00'', Some ''custom:a''), (''b'', None)]"
  by code_simp

section \<open>The window of the projection\<close>

lemma project_line_Some_iff:
  "project_line num tza now line = Some u \<longleftrightarrow>
     (\<exists>t. scheduleTime_of num tza now (fst (parse_line line)) = Some t
          \<and> minutesUntil_of now t \<le> 60
          \<and> u = \<lparr>time = fst (parse_line line), type = snd (parse_line line),
                   minutesUntil = minutesUntil_of now t, scheduleTime = t\<rparr>)"
  by (auto simp: project_line_def split: prod.splits option.splits)

lemma set_map_filter: "set (List.map_filter f xs) = {y. \<exists>x \<in> set xs. f x = Some y}"
  by (induction xs) (auto split: option.splits)

lemma set_upcoming_items:
  "set (upcoming_items num tza now content)
     = {u. \<exists>line \<in> set (text_lines content). project_line num tza now line = Some u}"
  by (simp add: upcoming_items_def set_map_filter)

lemma parsed_lines_of_schedule:
  assumes "\<forall>e \<in> set entries. valid_TimeKey (fst e) \<and> line_safe (snd e)"
  shows "parse_line ` set (text_lines (textarea_value (serialize (set_each [] entries))))
       = (\<lambda>e. (fst e, Some (snd e))) ` set (set_each [] entries)"
proof -
  let ?m = "set_each [] entries"
  have v: "\<forall>e \<in> set (timeEntries ?m). valid_TimeKey (fst e) \<and> line_safe (snd e)"
    using assms set_set_each [of "[]" entries] by (auto simp: timeEntries_def)
  have t: "textarea_value (serialize ?m) = serialize ?m"
    unfolding serialize_def using v by (rule textarea_value_entry_lines)
  have "parse_text (serialize ?m) = map (\<lambda>e. (fst e, Some (snd e))) (timeEntries ?m)"
    unfolding serialize_def using v by (rule parse_text_entry_lines)
  then have "set (parse_text (serialize ?m)) = (\<lambda>e. (fst e, Some (snd e))) ` set (timeEntries ?m)"
    by simp
  then show ?thesis
    unfolding t by (simp add: parse_text_def timeEntries_def)
qed

lemma upcoming_items_of_parsed:
  "set (upcoming_items num tza now content)
     = {u. \<exists>p \<in> parse_line ` set (text_lines content).
            \<exists>t. scheduleTime_of num tza now (fst p) = Some t \<and> minutesUntil_of now t \<le> 60
              \<and> u = \<lparr>time = fst p, type = snd p,
                       minutesUntil = minutesUntil_of now t, scheduleTime = t\<rparr>}"
  by (auto simp: set_upcoming_items project_line_Some_iff)

text \<open>
  Claim C2. A line yields an item exactly when its date is valid and its rounded
  \<open>minutesUntil\<close> is at most 60; the projection holds the items of the lines of the text, and
  every one of them has the rounded \<open>minutesUntil\<close> of its occurrence, which is at most 60.
  A line whose occurrence is exactly 60 minutes after \<open>now\<close> yields an item with
  \<open>minutesUntil = 60\<close>, one at 61 minutes yields none, and one whose occurrence is \<open>now\<close>
  yields an item with \<open>minutesUntil = 0\<close>. On the text that the text area gives back for the
  serialization of a cache with canonical keys and type tokens the text form can carry,
  the projection holds exactly the entries of the cache whose rounded \<open>minutesUntil\<close> is at
  most 60.
\<close>

theorem window_of_sixty_minutes:
  "(project_line num tza now line \<noteq> None \<longleftrightarrow>
      (\<exists>t. scheduleTime_of num tza now (fst (parse_line line)) = Some t
           \<and> minutesUntil_of now t \<le> 60))
   \<and> set (upcoming_items num tza now content)
       = {u. \<exists>l \<in> set (text_lines content). project_line num tza now l = Some u}
   \<and> (\<forall>u \<in> set (upcoming_items num tza now content).
         minutesUntil u = minutesUntil_of now (scheduleTime u) \<and> minutesUntil u \<le> 60)
   \<and> (scheduleTime_of num tza now (fst (parse_line line)) = Some (now + 60 * msPerMinute) \<longrightarrow>
        (\<exists>u. project_line num tza now line = Some u \<and> minutesUntil u = 60))
   \<and> (scheduleTime_of num tza now (fst (parse_line line)) = Some (now + 61 * msPerMinute) \<longrightarrow>
        project_line num tza now line = None)
   \<and> (scheduleTime_of num tza now (fst (parse_line line)) = Some now \<longrightarrow>
        (\<exists>u. project_line num tza now line = Some u \<and> minutesUntil u = 0))
   \<and> ((\<forall>e \<in> set entries. valid_TimeKey (fst e) \<and> line_safe (snd e)) \<longrightarrow>
        set (upcoming_items num tza now (textarea_value (serialize (set_each [] entries))))
          = {u. \<exists>e \<in> set (set_each [] entries).
                 \<exists>t. scheduleTime_of num tza now (fst e) = Some t \<and> minutesUntil_of now t \<le> 60
                   \<and> u = \<lparr>time = fst e, type = Some (snd e),
                            minutesUntil = minutesUntil_of now t, scheduleTime = t\<rparr>})"
proof -
  have a: "project_line num tza now line \<noteq> None \<longleftrightarrow>
      (\<exists>t. scheduleTime_of num tza now (fst (parse_line line)) = Some t
           \<and> minutesUntil_of now t \<le> 60)"
    by (auto simp: project_line_def split: prod.splits option.splits)
  have b: "\<forall>u \<in> set (upcoming_items num tza now content).
         minutesUntil u = minutesUntil_of now (scheduleTime u) \<and> minutesUntil u \<le> 60"
    by (auto simp: set_upcoming_items project_line_Some_iff)
  have c: "minutesUntil_of now (now + 60 * msPerMinute) = 60"
    "\<not> minutesUntil_of now (now + 61 * msPerMinute) \<le> 60"
    "minutesUntil_of now now = 0"
    by (simp_all add: minutesUntil_of_def round_minutes_def msPerMinute_def)
  have d: "scheduleTime_of num tza now (fst (parse_line line)) = Some (now + 60 * msPerMinute) \<longrightarrow>
        (\<exists>u. project_line num tza now line = Some u \<and> minutesUntil u = 60)"
    using c(1) by (auto simp: project_line_def split: prod.splits)
  have e: "scheduleTime_of num tza now (fst (parse_line line)) = Some (now + 61 * msPerMinute) \<longrightarrow>
        project_line num tza now line = None"
    using c(2) by (auto simp: project_line_def split: prod.splits)
  have f: "scheduleTime_of num tza now (fst (parse_line line)) = Some now \<longrightarrow>
        (\<exists>u. project_line num tza now line = Some u \<and> minutesUntil u = 0)"
    using c(3) by (auto simp: project_line_def split: prod.splits)
  have h: "(\<forall>e \<in> set entries. valid_TimeKey (fst e) \<and> line_safe (snd e)) \<longrightarrow>
        set (upcoming_items num tza now (textarea_value (serialize (set_each [] entries))))
          = {u. \<exists>e \<in> set (set_each [] entries).
                 \<exists>t. scheduleTime_of num tza now (fst e) = Some t \<and> minutesUntil_of now t \<le> 60
                   \<and> u = \<lparr>time = fst e, type = Some (snd e),
                            minutesUntil = minutesUntil_of now t, scheduleTime = t\<rparr>}"
  proof
    assume "\<forall>e \<in> set entries. valid_TimeKey (fst e) \<and> line_safe (snd e)"
    then have "parse_line ` set (text_lines (textarea_value (serialize (set_each [] entries))))
        = (\<lambda>e. (fst e, Some (snd e))) ` set (set_each [] entries)"
      by (rule parsed_lines_of_schedule)
    then show "set (upcoming_items num tza now (textarea_value (serialize (set_each [] entries))))
          = {u. \<exists>e \<in> set (set_each [] entries).
                 \<exists>t. scheduleTime_of num tza now (fst e) = Some t \<and> minutesUntil_of now t \<le> 60
                   \<and> u = \<lparr>time = fst e, type = Some (snd e),
                            minutesUntil = minutesUntil_of now t, scheduleTime = t\<rparr>}"
      unfolding upcoming_items_of_parsed by simp
  qed
  note g = set_upcoming_items [of num tza now content]
  from a g b d e f h show ?thesis
    by (intro conjI)
qed

theorem window_of_sixty_minutes_witness:
  "scheduleTime_of decimal_Number (fixed_zone 0) 1728032400000 (fst (parse_line ''10:00 = hour''))
     = Some (1728032400000 + 60 * msPerMinute)
   \<and> scheduleTime_of decimal_Number (fixed_zone 0) 1728032400000
       (fst (parse_line ''10:01 = rules''))
     = Some (1728032400000 + 61 * msPerMinute)
   \<and> scheduleTime_of decimal_Number (fixed_zone 0) 1728032400000 (fst (parse_line ''09:00 = ad''))
     = Some 1728032400000
   \<and> project_line decimal_Number (fixed_zone 0) 1728032400000 ''10:01 = rules'' = None
   \<and> valid_TimeKey ''10:00'' \<and> valid_TimeKey ''10:01'' \<and> valid_TimeKey ''09:00''
   \<and> line_safe ''hour'' \<and> line_safe ''rules'' \<and> line_safe ''ad''
   \<and> upcoming_items decimal_Number (fixed_zone 0) 1728032400000
        (textarea_value (serialize
           (set_each [] [(''10:00'', ''hour''), (''10:01'', ''rules''), (''09:00'', ''ad'')])))
       = [\<lparr>time = ''09:00'', type = Some ''ad'', minutesUntil = 0,
            scheduleTime = 1728032400000\<rparr>,
          \<lparr>time = ''10:00'', type = Some ''hour'', minutesUntil = 60,
            scheduleTime = 1728036000000\<rparr>]"
proof -
  have a: "scheduleTime_of decimal_Number (fixed_zone 0) 1728032400000
       (fst (parse_line ''10:00 = hour''))
     = Some (1728032400000 + 60 * msPerMinute)"
    by code_simp
  have b: "scheduleTime_of decimal_Number (fixed_zone 0) 1728032400000
       (fst (parse_line ''10:01 = rules''))
     = Some (1728032400000 + 61 * msPerMinute)"
    by code_simp
  have c: "scheduleTime_of decimal_Number (fixed_zone 0) 1728032400000
       (fst (parse_line ''09:00 = ad''))
     = Some 1728032400000"
    by code_simp
  have d: "upcoming_items decimal_Number (fixed_zone 0) 1728032400000
        (textarea_value (serialize
           (set_each [] [(''10:00'', ''hour''), (''10:01'', ''rules''), (''09:00'', ''ad'')])))
       = [\<lparr>time = ''09:00'', type = Some ''ad'', minutesUntil = 0,
            scheduleTime = 1728032400000\<rparr>,
          \<lparr>time = ''10:00'', type = Some ''hour'', minutesUntil = 60,
            scheduleTime = 1728036000000\<rparr>]"
    by code_simp
  have v: "valid_TimeKey ''10:00''" "valid_TimeKey ''10:01''" "valid_TimeKey ''09:00''"
    using valid_TimeKey_TimeKey [of 10 0] valid_TimeKey_TimeKey [of 10 1]
      valid_TimeKey_TimeKey [of 9 0]
    by (simp_all add: TimeKey_def pad2_def digit_def)
  have l: "line_safe ''hour''" "line_safe ''rules''" "line_safe ''ad''"
    by (simp_all add: line_safe_def js_trim_def is_ws_def)
  show ?thesis
    using window_of_sixty_minutes [of decimal_Number "fixed_zone 0" 1728032400000
        "''10:01 = rules''" _
        "[(''10:00'', ''hour''), (''10:01'', ''rules''), (''09:00'', ''ad'')]"]
      a b c d v l
    by simp
qed

section \<open>The projection on arbitrary text\<close>

lemma js_split_two: "c \<in> set s \<Longrightarrow> \<exists>a b bs. js_split c s = a # b # bs"
proof (induction s)
  case Nil
  then show ?case by simp
next
  case (Cons x s)
  show ?case
  proof (cases "x = c")
    case True
    then show ?thesis
      using js_split_neq_Nil [of c s] by (cases "js_split c s") auto
  next
    case False
    then have "c \<in> set s"
      using Cons.prems by simp
    then obtain a b bs where "js_split c s = a # b # bs"
      using Cons.IH by blast
    then show ?thesis
      using False by simp
  qed
qed

lemma length_js_split: "length (js_split c s) < 2 \<longleftrightarrow> c \<notin> set s"
  using js_split_two [of c s] js_split_notin [of c s] by auto

lemma parse_line_type: "snd (parse_line line) \<noteq> None \<longleftrightarrow> CHR ''='' \<in> set line"
proof (cases "CHR ''='' \<in> set line")
  case True
  then obtain a b bs where "js_split (CHR ''='') line = a # b # bs"
    using js_split_two by blast
  then show ?thesis
    using True by (simp add: parse_line_def)
next
  case False
  then show ?thesis
    by (simp add: parse_line_def js_split_notin)
qed

lemma candidate_None:
  assumes "formatTime_throws timeStr \<or> fst (hours_minutes num timeStr) = None
           \<or> snd (hours_minutes num timeStr) = None"
  shows "candidate num tza now timeStr = None"
proof -
  have "snd (hours_minutes num timeStr) = None" if "formatTime_throws timeStr"
    using that js_split_neq_Nil [of "CHR '':''" timeStr]
    by (cases "js_split (CHR '':'') timeStr" rule: list.exhaust)
      (auto simp: formatTime_throws_def hours_minutes_def split: list.splits)
  with assms show ?thesis
    by (auto simp: candidate_def setHours_def split: prod.splits option.splits)
qed

lemma project_line_skips:
  assumes "formatTime_throws (fst (parse_line line))
           \<or> fst (hours_minutes num (fst (parse_line line))) = None
           \<or> snd (hours_minutes num (fst (parse_line line))) = None"
  shows "project_line num tza now line = None"
  using candidate_None [OF assms, of tza now]
  by (cases "parse_line line") (simp add: project_line_def scheduleTime_of_def)

text \<open>A line whose time has no \<open>:\<close>, or whose hour or minute does not convert to a finite
  number, yields no item.\<close>

lemma project_line_skips_unparsed:
  assumes "CHR '':'' \<notin> set (fst (parse_line line))
           \<or> fst (hours_minutes num (fst (parse_line line))) = None
           \<or> snd (hours_minutes num (fst (parse_line line))) = None"
  shows "project_line num tza now line = None"
  using assms by (intro project_line_skips) (simp add: formatTime_throws_def length_js_split)

lemma render_upcoming_throws:
  "snd (render_upcoming colorData items)
     = (if \<exists>u \<in> set items. type u = None \<or> formatTime_throws (time u)
        then Some TypeError else None)"
  by (induction items) (auto split: prod.splits option.splits)

lemma upcoming_items_time:
  assumes "u \<in> set (upcoming_items num tza now content)"
  shows "\<not> formatTime_throws (time u)"
proof -
  obtain line where l: "project_line num tza now line = Some u"
    using assms by (auto simp: set_upcoming_items)
  then have "time u = fst (parse_line line)"
    by (auto simp: project_line_Some_iff)
  moreover have "\<not> formatTime_throws (fst (parse_line line))"
    using project_line_skips [of line num tza now] l by auto
  ultimately show ?thesis
    by simp
qed

text \<open>The projection throws exactly when a line without \<open>=\<close> yields an item, and then it
  is a \<open>TypeError\<close>.\<close>

lemma upcoming_html_throws_iff:
  "snd (upcoming_html colorData (upcoming_items num tza now content))
     = (if \<exists>l \<in> set (text_lines content).
             CHR ''='' \<notin> set l \<and> project_line num tza now l \<noteq> None
        then Some TypeError else None)"
proof -
  let ?items = "upcoming_items num tza now content"
  have "(\<exists>u \<in> set ?items. type u = None \<or> formatTime_throws (time u))
      \<longleftrightarrow> (\<exists>u \<in> set ?items. type u = None)"
    using upcoming_items_time [of _ num tza now content] by blast
  also have "\<dots> \<longleftrightarrow> (\<exists>l \<in> set (text_lines content).
      snd (parse_line l) = None \<and> project_line num tza now l \<noteq> None)"
  proof -
    have t: "type u = snd (parse_line l)" if "project_line num tza now l = Some u" for l u
      using that by (auto simp: project_line_Some_iff)
    show ?thesis
      unfolding set_upcoming_items using t by fastforce
  qed
  also have "\<dots> \<longleftrightarrow> (\<exists>l \<in> set (text_lines content).
      CHR ''='' \<notin> set l \<and> project_line num tza now l \<noteq> None)"
    using parse_line_type by blast
  finally have e: "(\<exists>u \<in> set ?items. type u = None \<or> formatTime_throws (time u))
      \<longleftrightarrow> (\<exists>l \<in> set (text_lines content).
            CHR ''='' \<notin> set l \<and> project_line num tza now l \<noteq> None)" .
  have "snd (upcoming_html colorData ?items)
      = (if \<exists>u \<in> set ?items. type u = None \<or> formatTime_throws (time u)
         then Some TypeError else None)"
    using render_upcoming_throws [of colorData ?items]
    by (auto simp: upcoming_html_def split: prod.splits)
  then show ?thesis
    unfolding e .
qed

lemma updateUpcomingAnnouncements_throws_iff:
  "snd (updateUpcomingAnnouncements num tza now colorData s) = Some TypeError \<longleftrightarrow>
     upcomingList s \<noteq> None
     \<and> (\<exists>raw. timesTextarea s = Some raw
          \<and> (\<exists>l \<in> set (text_lines (textarea_value raw)).
                CHR ''='' \<notin> set l \<and> project_line num tza now l \<noteq> None))"
proof (cases "upcomingList s")
  case None
  then show ?thesis
    by (simp add: updateUpcomingAnnouncements_def)
next
  case u: (Some v)
  show ?thesis
  proof (cases "timesTextarea s")
    case None
    then show ?thesis
      using u by (simp add: updateUpcomingAnnouncements_def)
  next
    case (Some raw)
    have "snd (updateUpcomingAnnouncements num tza now colorData s)
        = snd (upcoming_html colorData (upcoming_items num tza now (textarea_value raw)))"
      using u Some by (simp add: updateUpcomingAnnouncements_def split: prod.splits)
    then show ?thesis
      using u Some by (simp add: upcoming_html_throws_iff)
  qed
qed

text \<open>
  Claim C9 does not hold of the code. The projection skips a line whose time does not
  convert, but a line that has no \<open>=\<close> leaves the type undefined, and when its time is
  within the hour the rendering calls \<open>startsWith\<close> on it: at 09:45 the text \<open>10:00\<close> makes
  the projection throw a \<open>TypeError\<close> and leaves the list empty; after a good line, the
  items rendered so far stay and the rest is lost. The same line out of the window, or a
  comment line, is skipped without an exception.
\<close>

theorem projection_throws_on_line_without_type:
  "updateUpcomingAnnouncements decimal_Number (fixed_zone 0) 1728035100000 None
       \<lparr>times_Map = [], types_Map = [], scheduleList = None,
        timesTextarea = Some ''10:00'',
        customTypesList = None, customTypesTextarea = None, newType = None,
        upcomingList = Some Placeholder, flash_container = None\<rparr>
     = (\<lparr>times_Map = [], types_Map = [], scheduleList = None,
         timesTextarea = Some ''10:00'',
         customTypesList = None, customTypesTextarea = None, newType = None,
         upcomingList = Some (Listing []), flash_container = None\<rparr>, Some TypeError)
   \<and> updateUpcomingAnnouncements decimal_Number (fixed_zone 0) 1728035100000 None
       \<lparr>times_Map = [], types_Map = [], scheduleList = None,
        timesTextarea = Some (''09:50 = rules'' @ [CHR 0x0A] @ ''10:00'' @ [CHR 0x0A]
                              @ ''10:15 = ad''),
        customTypesList = None, customTypesTextarea = None, newType = None,
        upcomingList = Some Placeholder, flash_container = None\<rparr>
     = (\<lparr>times_Map = [], types_Map = [], scheduleList = None,
         timesTextarea = Some (''09:50 = rules'' @ [CHR 0x0A] @ ''10:00'' @ [CHR 0x0A]
                               @ ''10:15 = ad''),
         customTypesList = None, customTypesTextarea = None, newType = None,
         upcomingList = Some (Listing [\<lparr>view_type = ''rules'', view_time = ''09:50'',
           view_label = Text ''Rules'', view_colorInfo = [], view_minutes = 5\<rparr>]),
         flash_container = None\<rparr>, Some TypeError)
   \<and> snd (updateUpcomingAnnouncements decimal_Number (fixed_zone 0) 1728035100000 None
       \<lparr>times_Map = [], types_Map = [], scheduleList = None,
        timesTextarea = Some ''23:00'',
        customTypesList = None, customTypesTextarea = None, newType = None,
        upcomingList = Some Placeholder, flash_container = None\<rparr>) = None
   \<and> updateUpcomingAnnouncements decimal_Number (fixed_zone 0) 1728035100000 None
       \<lparr>times_Map = [], types_Map = [], scheduleList = None,
        timesTextarea = Some (''# rink schedule'' @ [CHR 0x0A] @ ''10:00 = hour''),
        customTypesList = None, customTypesTextarea = None, newType = None,
        upcomingList = Some Placeholder, flash_container = None\<rparr>
     = (\<lparr>times_Map = [], types_Map = [], scheduleList = None,
         timesTextarea = Some (''# rink schedule'' @ [CHR 0x0A] @ ''10:00 = hour''),
         customTypesList = None, customTypesTextarea = None, newType = None,
         upcomingList = Some (Listing [\<lparr>view_type = ''hour'', view_time = ''10:00'',
           view_label = Text ''Hour Change'', view_colorInfo = [], view_minutes = 15\<rparr>]),
         flash_container = None\<rparr>, None)"
  by code_simp

section \<open>Refresh\<close>

lemma filter_custom_option:
  "filter (\<lambda>opt. \<not> startsWith (snd opt) ''custom:'') (map custom_option m) = []"
  by (induction m) (simp_all add: startsWith_def custom_option_def)

subsection \<open>The schedule block\<close>

lemma update_schedule_data_idem:
  "update_schedule_data t (fst (update_schedule_data t s)) = update_schedule_data t s"
  by (auto simp: update_schedule_data_def updateScheduleList_def Map_clear_def Let_def
      split: option.splits)

lemma update_schedule_data_types:
  "update_schedule_data t
     (s\<lparr>types_Map := a, customTypesList := b, customTypesTextarea := c, newType := d\<rparr>)
   = ((fst (update_schedule_data t s))
        \<lparr>types_Map := a, customTypesList := b, customTypesTextarea := c, newType := d\<rparr>,
      snd (update_schedule_data t s))"
  by (simp add: update_schedule_data_def updateScheduleList_def Map_clear_def Let_def
      split: option.splits)

lemma update_schedule_data_upcoming:
  "update_schedule_data t (s\<lparr>upcomingList := v\<rparr>)
   = ((fst (update_schedule_data t s))\<lparr>upcomingList := v\<rparr>, snd (update_schedule_data t s))"
  by (simp add: update_schedule_data_def updateScheduleList_def Map_clear_def Let_def
      split: option.splits)

lemma update_schedule_data_flash:
  "update_schedule_data t (s\<lparr>flash_container := v\<rparr>)
   = ((fst (update_schedule_data t s))\<lparr>flash_container := v\<rparr>, snd (update_schedule_data t s))"
  by (simp add: update_schedule_data_def updateScheduleList_def Map_clear_def Let_def
      split: option.splits)

subsection \<open>The custom-types block\<close>

lemma update_custom_types_idem:
  "update_custom_types c (fst (update_custom_types c s)) = update_custom_types c s"
  by (simp add: update_custom_types_def updateTypesList_def updateTypeDropdown_def
      Map_clear_def Let_def filter_custom_option split: option.splits)

lemma update_custom_types_effect:
  "\<exists>a b c d. fst (update_custom_types ct s)
     = s\<lparr>types_Map := a, customTypesList := b, customTypesTextarea := c, newType := d\<rparr>"
proof -
  let ?s = "fst (update_custom_types ct s)"
  have "?s = s\<lparr>types_Map := types_Map ?s, customTypesList := customTypesList ?s,
               customTypesTextarea := customTypesTextarea ?s, newType := newType ?s\<rparr>"
    by (rule page.equality)
      (simp_all add: update_custom_types_def updateTypesList_def updateTypeDropdown_def
        Map_clear_def Let_def split: option.splits)
  then show ?thesis
    by blast
qed

lemma update_custom_types_upcoming:
  "update_custom_types c (s\<lparr>upcomingList := v\<rparr>)
   = ((fst (update_custom_types c s))\<lparr>upcomingList := v\<rparr>, snd (update_custom_types c s))"
  by (simp add: update_custom_types_def updateTypesList_def updateTypeDropdown_def
      Map_clear_def Let_def split: option.splits)

lemma update_custom_types_flash:
  "update_custom_types c (s\<lparr>flash_container := v\<rparr>)
   = ((fst (update_custom_types c s))\<lparr>flash_container := v\<rparr>, snd (update_custom_types c s))"
  by (simp add: update_custom_types_def updateTypesList_def updateTypeDropdown_def
      Map_clear_def Let_def split: option.splits)

subsection \<open>The projection step\<close>

lemma updateUpcomingAnnouncements_idem:
  "updateUpcomingAnnouncements num tza now cd (fst (updateUpcomingAnnouncements num tza now cd s))
   = updateUpcomingAnnouncements num tza now cd s"
  by (simp add: updateUpcomingAnnouncements_def split: option.splits prod.splits)

lemma updateUpcomingAnnouncements_effect:
  "\<exists>v. fst (updateUpcomingAnnouncements num tza now cd s) = s\<lparr>upcomingList := v\<rparr>"
proof -
  let ?s = "fst (updateUpcomingAnnouncements num tza now cd s)"
  have "?s = s\<lparr>upcomingList := upcomingList ?s\<rparr>"
    by (rule page.equality)
      (simp_all add: updateUpcomingAnnouncements_def split: option.splits prod.splits)
  then show ?thesis
    by blast
qed

lemma updateUpcomingAnnouncements_flash:
  "updateUpcomingAnnouncements num tza now cd (s\<lparr>flash_container := v\<rparr>)
   = ((fst (updateUpcomingAnnouncements num tza now cd s))\<lparr>flash_container := v\<rparr>,
      snd (updateUpcomingAnnouncements num tza now cd s))"
  by (simp add: updateUpcomingAnnouncements_def split: option.splits prod.splits)

subsection \<open>The blocks in sequence\<close>

lemma custom_types_keeps_schedule:
  assumes "update_schedule_data t s = (s, e)"
  shows "update_schedule_data t (fst (update_custom_types c s)) = (fst (update_custom_types c s), e)"
proof -
  obtain a b c' d where "fst (update_custom_types c s)
      = s\<lparr>types_Map := a, customTypesList := b, customTypesTextarea := c', newType := d\<rparr>"
    using update_custom_types_effect by blast
  then show ?thesis
    using assms by (simp add: update_schedule_data_types)
qed

lemma upcoming_keeps_schedule:
  assumes "update_schedule_data t s = (s, e)"
  shows "update_schedule_data t (fst (updateUpcomingAnnouncements num tza now cd s))
       = (fst (updateUpcomingAnnouncements num tza now cd s), e)"
proof -
  obtain v where "fst (updateUpcomingAnnouncements num tza now cd s) = s\<lparr>upcomingList := v\<rparr>"
    using updateUpcomingAnnouncements_effect by blast
  then show ?thesis
    using assms by (simp add: update_schedule_data_upcoming)
qed

lemma upcoming_keeps_custom_types:
  assumes "update_custom_types c s = (s, e)"
  shows "update_custom_types c (fst (updateUpcomingAnnouncements num tza now cd s))
       = (fst (updateUpcomingAnnouncements num tza now cd s), e)"
proof -
  obtain v where "fst (updateUpcomingAnnouncements num tza now cd s) = s\<lparr>upcomingList := v\<rparr>"
    using updateUpcomingAnnouncements_effect by blast
  then show ?thesis
    using assms by (simp add: update_custom_types_upcoming)
qed

lemma three_blocks_idem:
  fixes A B C :: "page \<Rightarrow> page \<times> exn option"
  assumes A: "\<And>s. A (fst (A s)) = A s"
    and B: "\<And>s. B (fst (B s)) = B s"
    and C: "\<And>s. C (fst (C s)) = C s"
    and AB: "\<And>s e. A s = (s, e) \<Longrightarrow> A (fst (B s)) = (fst (B s), e)"
    and AC: "\<And>s e. A s = (s, e) \<Longrightarrow> A (fst (C s)) = (fst (C s), e)"
    and BC: "\<And>s e. B s = (s, e) \<Longrightarrow> B (fst (C s)) = (fst (C s), e)"
  shows "and_then (and_then (A (fst (and_then (and_then (A s) B) C))) B) C
       = and_then (and_then (A s) B) C"
proof -
  obtain sa ea where a: "A s = (sa, ea)"
    by (cases "A s")
  have a': "A sa = (sa, ea)"
    using A [of s] a by simp
  show ?thesis
  proof (cases ea)
    case (Some e)
    then show ?thesis
      using a a' by (simp add: and_then_def)
  next
    case None
    obtain sb eb where b: "B sa = (sb, eb)"
      by (cases "B sa")
    have b': "B sb = (sb, eb)"
      using B [of sa] b by simp
    have ab: "A sb = (sb, None)"
      using AB [OF a' [unfolded None], of ] b by simp
    show ?thesis
    proof (cases eb)
      case (Some e)
      then show ?thesis
        using a None b b' ab by (simp add: and_then_def)
    next
      case bn: None
      obtain sc ec where c: "C sb = (sc, ec)"
        by (cases "C sb")
      have "C sc = (sc, ec)"
        using C [of sb] c by simp
      moreover have "A sc = (sc, None)"
        using AC [OF ab] c by simp
      moreover have "B sc = (sc, None)"
        using BC [OF b' [unfolded bn]] c by simp
      ultimately show ?thesis
        using a None b bn c by (simp add: and_then_def)
    qed
  qed
qed

lemma apply_snapshot_idem:
  "apply_snapshot num tza now d (fst (apply_snapshot num tza now d s)) = apply_snapshot num tza now d s"
  unfolding apply_snapshot_def
  by (rule three_blocks_idem)
    (simp_all add: update_schedule_data_idem update_custom_types_idem
      updateUpcomingAnnouncements_idem custom_types_keeps_schedule upcoming_keeps_schedule
      upcoming_keeps_custom_types)

subsection \<open>Notifications\<close>

lemma showNotification_effect: "\<exists>v. showNotification m k s = s\<lparr>flash_container := v\<rparr>"
proof -
  have "showNotification m k s
      = s\<lparr>flash_container := flash_container (showNotification m k s)\<rparr>"
    by (rule page.equality) (simp_all add: showNotification_def split: option.splits)
  then show ?thesis
    by blast
qed

lemma showNotification_present:
  "flash_container s = Some alerts \<Longrightarrow>
   showNotification m k s = s\<lparr>flash_container := Some (alerts @ [(m, k)])\<rparr>"
  by (simp add: showNotification_def)

lemma three_blocks_flash:
  fixes A B C :: "page \<Rightarrow> page \<times> exn option"
  assumes A: "\<And>s. A (s\<lparr>flash_container := v\<rparr>) = ((fst (A s))\<lparr>flash_container := v\<rparr>, snd (A s))"
    and B: "\<And>s. B (s\<lparr>flash_container := v\<rparr>) = ((fst (B s))\<lparr>flash_container := v\<rparr>, snd (B s))"
    and C: "\<And>s. C (s\<lparr>flash_container := v\<rparr>) = ((fst (C s))\<lparr>flash_container := v\<rparr>, snd (C s))"
  shows "and_then (and_then (A (s\<lparr>flash_container := v\<rparr>)) B) C
       = ((fst (and_then (and_then (A s) B) C))\<lparr>flash_container := v\<rparr>,
          snd (and_then (and_then (A s) B) C))"
proof -
  obtain sa ea where a: "A s = (sa, ea)"
    by (cases "A s")
  obtain sb eb where b: "B sa = (sb, eb)"
    by (cases "B sa")
  obtain sc ec where c: "C sb = (sc, ec)"
    by (cases "C sb")
  show ?thesis
    using a b c A [of s] B [of sa] C [of sb]
    by (cases ea; cases eb) (simp_all add: and_then_def)
qed

lemma flash_of_blocks:
  "flash_container (fst (update_schedule_data t s)) = flash_container s"
  "flash_container (fst (update_custom_types c s)) = flash_container s"
  "flash_container (fst (updateUpcomingAnnouncements num tza now cd s)) = flash_container s"
  by (simp_all add: update_schedule_data_def updateScheduleList_def update_custom_types_def
      updateTypesList_def updateTypeDropdown_def updateUpcomingAnnouncements_def Map_clear_def
      Let_def split: option.splits prod.splits)

lemma flash_of_apply_snapshot:
  "flash_container (fst (apply_snapshot num tza now d s)) = flash_container s"
proof -
  obtain sa ea where a: "update_schedule_data (body_times d) s = (sa, ea)"
    by (cases "update_schedule_data (body_times d) s")
  obtain sb eb where b: "update_custom_types (body_custom_types d) sa = (sb, eb)"
    by (cases "update_custom_types (body_custom_types d) sa")
  have "flash_container sa = flash_container s" "flash_container sb = flash_container sa"
    using flash_of_blocks(1) [of "body_times d" s] a
      flash_of_blocks(2) [of "body_custom_types d" sa] b by simp_all
  then show ?thesis
    using a b flash_of_blocks(3) [of num tza now None sb]
    by (cases ea; cases eb) (simp_all add: apply_snapshot_def and_then_def)
qed

lemma flash_of_refreshState: "flash_container (refreshState num tza now r s) = flash_container s"
  by (simp add: refreshState_def flash_of_apply_snapshot split: reply.splits)

subsection \<open>The manual refresh\<close>

lemma refreshSchedule_core_idem:
  fixes c :: "(string \<times> string) list option"
  defines "B \<equiv> (\<lambda>s. case c of None \<Rightarrow> (s, None) | Some custom \<Rightarrow> update_custom_types (Some custom) s)"
  shows "and_then (and_then (update_schedule_data t
            (fst (and_then (and_then (update_schedule_data t s) B)
                    (updateUpcomingAnnouncements num tza now None)))) B)
           (updateUpcomingAnnouncements num tza now None)
       = and_then (and_then (update_schedule_data t s) B) (updateUpcomingAnnouncements num tza now None)"
proof (rule three_blocks_idem)
  show "update_schedule_data t (fst (update_schedule_data t s)) = update_schedule_data t s" for s
    by (rule update_schedule_data_idem)
  show "B (fst (B s)) = B s" for s
    unfolding B_def by (cases c) (simp_all add: update_custom_types_idem)
  show "updateUpcomingAnnouncements num tza now None (fst (updateUpcomingAnnouncements num tza now None s))
      = updateUpcomingAnnouncements num tza now None s" for s
    by (rule updateUpcomingAnnouncements_idem)
  show "update_schedule_data t (fst (B s)) = (fst (B s), e)"
    if "update_schedule_data t s = (s, e)" for s e
    unfolding B_def using that by (cases c) (simp_all add: custom_types_keeps_schedule)
  show "update_schedule_data t (fst (updateUpcomingAnnouncements num tza now None s))
      = (fst (updateUpcomingAnnouncements num tza now None s), e)"
    if "update_schedule_data t s = (s, e)" for s e
    using that by (rule upcoming_keeps_schedule)
  show "B (fst (updateUpcomingAnnouncements num tza now None s))
      = (fst (updateUpcomingAnnouncements num tza now None s), e)"
    if "B s = (s, e)" for s e
    using that unfolding B_def by (cases c) (simp_all add: upcoming_keeps_custom_types)
qed

lemma refreshSchedule_core_flash:
  fixes c :: "(string \<times> string) list option"
  defines "B \<equiv> (\<lambda>s. case c of None \<Rightarrow> (s, None) | Some custom \<Rightarrow> update_custom_types (Some custom) s)"
  shows "and_then (and_then (update_schedule_data t (s\<lparr>flash_container := v\<rparr>)) B)
           (updateUpcomingAnnouncements num tza now None)
       = ((fst (and_then (and_then (update_schedule_data t s) B)
                  (updateUpcomingAnnouncements num tza now None)))\<lparr>flash_container := v\<rparr>,
          snd (and_then (and_then (update_schedule_data t s) B)
                 (updateUpcomingAnnouncements num tza now None)))"
proof (rule three_blocks_flash)
  show "update_schedule_data t (s\<lparr>flash_container := v\<rparr>)
      = ((fst (update_schedule_data t s))\<lparr>flash_container := v\<rparr>, snd (update_schedule_data t s))"
    for s
    by (rule update_schedule_data_flash)
  show "B (s\<lparr>flash_container := v\<rparr>) = ((fst (B s))\<lparr>flash_container := v\<rparr>, snd (B s))" for s
    unfolding B_def by (cases c) (simp_all add: update_custom_types_flash)
  show "updateUpcomingAnnouncements num tza now None (s\<lparr>flash_container := v\<rparr>)
      = ((fst (updateUpcomingAnnouncements num tza now None s))\<lparr>flash_container := v\<rparr>,
         snd (updateUpcomingAnnouncements num tza now None s))" for s
    by (rule updateUpcomingAnnouncements_flash)
qed

lemma refreshSchedule_twice:
  "(refreshSchedule num tza now r (refreshSchedule num tza now r s))
      \<lparr>flash_container := flash_container (refreshSchedule num tza now r s)\<rparr>
   = refreshSchedule num tza now r s"
proof -
  have note_twice: "(showNotification m k (showNotification m' k' x))
      \<lparr>flash_container := flash_container (showNotification m' k' x)\<rparr>
      = showNotification m' k' x" for m k m' k' x
    using showNotification_effect [of m k "showNotification m' k' x"] by auto
  show ?thesis
  proof (cases r)
    case (Rejected msg)
    then show ?thesis
      by (simp add: refreshSchedule_def refreshSchedule_try_def note_twice)
  next
    case (Reply ok result)
    show ?thesis
    proof (cases ok)
      case False
      then show ?thesis
        using Reply by (simp add: refreshSchedule_def refreshSchedule_try_def note_twice)
    next
      case True
      let ?B = "\<lambda>s. case body_custom_types result of None \<Rightarrow> (s, None)
                      | Some custom \<Rightarrow> update_custom_types (Some custom) s"
      let ?G = "\<lambda>s. and_then (and_then (update_schedule_data (body_times result) s) ?B)
                      (updateUpcomingAnnouncements num tza now None)"
      obtain g e where g: "?G s = (g, e)"
        by (cases "?G s")
      have gg: "?G g = (g, e)"
        using refreshSchedule_core_idem [where t = "body_times result"
            and c = "body_custom_types result" and s = s and num = num and tza = tza and now = now] g
        by simp
      define m k where "m = (case e of None \<Rightarrow> Message ''Schedule refreshed successfully''
                              | Some x \<Rightarrow> message_of x)"
        and "k = (case e of None \<Rightarrow> ''success'' | Some x \<Rightarrow> ''error'')"
      have r1: "refreshSchedule num tza now r x = showNotification m k (fst (?G x))"
        if "snd (?G x) = e" for x
        using that Reply True
        by (cases "?G x"; cases e)
          (simp_all add: refreshSchedule_def refreshSchedule_try_def and_then_def m_def k_def)
      obtain v where v: "showNotification m k g = g\<lparr>flash_container := v\<rparr>"
        using showNotification_effect by blast
      have s1: "refreshSchedule num tza now r s = g\<lparr>flash_container := v\<rparr>"
        using r1 [of s] g v by simp
      have "?G (g\<lparr>flash_container := v\<rparr>) = (g\<lparr>flash_container := v\<rparr>, e)"
        using refreshSchedule_core_flash [where t = "body_times result" and s = g and v = v
            and c = "body_custom_types result" and num = num and tza = tza and now = now]
          gg by simp
      then have "refreshSchedule num tza now r (g\<lparr>flash_container := v\<rparr>)
          = showNotification m k (g\<lparr>flash_container := v\<rparr>)"
        using r1 [of "g\<lparr>flash_container := v\<rparr>"] by simp
      moreover obtain w where "showNotification m k (g\<lparr>flash_container := v\<rparr>)
          = g\<lparr>flash_container := v\<rparr>\<lparr>flash_container := w\<rparr>"
        using showNotification_effect by blast
      ultimately show ?thesis
        using s1 by simp
    qed
  qed
qed

text \<open>
  Claim C7. With the same reply and the same instant, \<open>refreshState\<close> run on its own result
  changes nothing: both caches, the schedule list, the text of the serialization, the
  custom-type views and the projected upcoming list are those of the first run. The manual
  refresh \<open>refreshSchedule\<close> run twice leaves all of these as after the first run too; it
  differs only in the notification that each run adds.
\<close>

theorem refresh_idempotent:
  "refreshState num tza now r (refreshState num tza now r s) = refreshState num tza now r s
   \<and> (refreshSchedule num tza now r (refreshSchedule num tza now r s))
         \<lparr>flash_container := flash_container (refreshSchedule num tza now r s)\<rparr>
       = refreshSchedule num tza now r s"
proof -
  have "refreshState num tza now r (refreshState num tza now r s) = refreshState num tza now r s"
    by (cases r) (simp_all add: refreshState_def apply_snapshot_idem)
  then show ?thesis
    using refreshSchedule_twice [of num tza now r s] by simp
qed

theorem refresh_idempotent_witness:
  "refreshState decimal_Number (fixed_zone 0) 1728035400000
     (Reply True \<lparr>body_status = Some ''success'', body_error = None,
        body_times = Some [(''10:55'', '':55''), (''10:00'', ''hour'')],
        body_custom_types = Some []\<rparr>)
     \<lparr>times_Map = [], types_Map = [], scheduleList = Some Placeholder,
      timesTextarea = Some [], customTypesList = Some Placeholder,
      customTypesTextarea = Some [], newType = Some [(''Rules'', ''rules'')],
      upcomingList = Some Placeholder, flash_container = Some []\<rparr>
   = \<lparr>times_Map = [(''10:55'', '':55''), (''10:00'', ''hour'')], types_Map = [],
      scheduleList = Some (Listing
        [\<lparr>item_type = ''hour'', item_time = ''10:00'', item_label = Text ''Hour Change''\<rparr>,
         \<lparr>item_type = '':55'', item_time = ''10:55'', item_label = Text ''Color Warning''\<rparr>]),
      timesTextarea = Some (''10:00 = hour'' @ [CHR 0x0A] @ ''10:55 = :55''),
      customTypesList = Some Placeholder, customTypesTextarea = Some [],
      newType = Some [(''Rules'', ''rules'')],
      upcomingList = Some (Listing
        [\<lparr>view_type = ''hour'', view_time = ''10:00'', view_label = Text ''Hour Change'',
          view_colorInfo = [], view_minutes = 10\<rparr>]),
      flash_container = Some []\<rparr>
   \<and> refreshState decimal_Number (fixed_zone 0) 1728035400000
     (Reply True \<lparr>body_status = Some ''success'', body_error = None,
        body_times = Some [(''10:55'', '':55''), (''10:00'', ''hour'')],
        body_custom_types = Some []\<rparr>)
     \<lparr>times_Map = [(''10:55'', '':55''), (''10:00'', ''hour'')], types_Map = [],
      scheduleList = Some (Listing
        [\<lparr>item_type = ''hour'', item_time = ''10:00'', item_label = Text ''Hour Change''\<rparr>,
         \<lparr>item_type = '':55'', item_time = ''10:55'', item_label = Text ''Color Warning''\<rparr>]),
      timesTextarea = Some (''10:00 = hour'' @ [CHR 0x0A] @ ''10:55 = :55''),
      customTypesList = Some Placeholder, customTypesTextarea = Some [],
      newType = Some [(''Rules'', ''rules'')],
      upcomingList = Some (Listing
        [\<lparr>view_type = ''hour'', view_time = ''10:00'', view_label = Text ''Hour Change'',
          view_colorInfo = [], view_minutes = 10\<rparr>]),
      flash_container = Some []\<rparr>
   = \<lparr>times_Map = [(''10:55'', '':55''), (''10:00'', ''hour'')], types_Map = [],
      scheduleList = Some (Listing
        [\<lparr>item_type = ''hour'', item_time = ''10:00'', item_label = Text ''Hour Change''\<rparr>,
         \<lparr>item_type = '':55'', item_time = ''10:55'', item_label = Text ''Color Warning''\<rparr>]),
      timesTextarea = Some (''10:00 = hour'' @ [CHR 0x0A] @ ''10:55 = :55''),
      customTypesList = Some Placeholder, customTypesTextarea = Some [],
      newType = Some [(''Rules'', ''rules'')],
      upcomingList = Some (Listing
        [\<lparr>view_type = ''hour'', view_time = ''10:00'', view_label = Text ''Hour Change'',
          view_colorInfo = [], view_minutes = 10\<rparr>]),
      flash_container = Some []\<rparr>"
  (is "?f ?s0 = ?s1 \<and> ?f ?s1 = ?s1")
proof -
  have a: "?f ?s0 = ?s1"
    by code_simp
  have "?f (?f ?s0) = ?f ?s0"
    using refresh_idempotent [of decimal_Number "fixed_zone 0" 1728035400000 _ ?s0] by (rule conjunct1)
  with a show ?thesis
    by simp
qed

section \<open>Mutations\<close>

lemma notification_only:
  "(showNotification m k s)\<lparr>flash_container := flash_container s\<rparr> = s"
  using showNotification_effect [of m k s] by auto

lemma addTime_failure:
  "failure_message r ''Failed to add time'' = Some msg \<Longrightarrow> t \<noteq> [] \<Longrightarrow> ty \<noteq> [] \<Longrightarrow>
   addTime (Some t) (Some ty) r num tza now r' s = showNotification (Message msg) ''error'' s"
  by (auto simp: addTime_def failure_message_def split: reply.splits if_splits)

lemma deleteTime_failure:
  "failure_message r ''Failed to delete time'' = Some msg \<Longrightarrow>
   deleteTime t True r num tza now r' s = showNotification (Message msg) ''error'' s"
  by (auto simp: deleteTime_def failure_message_def split: reply.splits if_splits)

lemma addType_failure:
  "failure_message r ''Failed to add custom type'' = Some msg \<Longrightarrow>
   js_trim n \<noteq> [] \<Longrightarrow> js_trim tpl \<noteq> [] \<Longrightarrow>
   addType (Some n) (Some tpl) r num tza now r' s = showNotification (Message msg) ''error'' s"
  by (auto simp: addType_def failure_message_def split: reply.splits if_splits)

text \<open>
  Claim C8. A mutation whose request fails, by a rejection or by a reply that is not \<open>ok\<close>,
  leaves the page as it was, both caches and every rendered view, but for the flash
  container; and on a page that has the flash container it adds one alert there, of kind
  \<open>error\<close>, with the message of the failure: the rejection's message, or the server's error
  when it gave one. On such a page every mutation that was not cancelled at the
  \<open>confirm\<close> dialog ends with exactly one more alert, whatever the inputs and the reply.
\<close>

theorem mutation_failure:
  "(failure_message r ''Failed to add time'' = Some msg \<and> t \<noteq> [] \<and> ty \<noteq> [] \<longrightarrow>
      (addTime (Some t) (Some ty) r num tza now r' s)\<lparr>flash_container := flash_container s\<rparr> = s
      \<and> (flash_container s = Some alerts \<longrightarrow>
           flash_container (addTime (Some t) (Some ty) r num tza now r' s)
             = Some (alerts @ [(Message msg, ''error'')])))
   \<and> (failure_message r ''Failed to delete time'' = Some msg \<longrightarrow>
      (deleteTime t True r num tza now r' s)\<lparr>flash_container := flash_container s\<rparr> = s
      \<and> (flash_container s = Some alerts \<longrightarrow>
           flash_container (deleteTime t True r num tza now r' s)
             = Some (alerts @ [(Message msg, ''error'')])))
   \<and> (failure_message r ''Failed to add custom type'' = Some msg
        \<and> js_trim n \<noteq> [] \<and> js_trim tpl \<noteq> [] \<longrightarrow>
      (addType (Some n) (Some tpl) r num tza now r' s)\<lparr>flash_container := flash_container s\<rparr> = s
      \<and> (flash_container s = Some alerts \<longrightarrow>
           flash_container (addType (Some n) (Some tpl) r num tza now r' s)
             = Some (alerts @ [(Message msg, ''error'')])))
   \<and> (flash_container s = Some alerts \<longrightarrow>
        (\<exists>m k. flash_container (addTime timeInput typeSelect r num tza now r' s)
                  = Some (alerts @ [(m, k)]))
        \<and> (\<exists>m k. flash_container (deleteTime t True r num tza now r' s) = Some (alerts @ [(m, k)]))
        \<and> (\<exists>m k. flash_container (addType nameInput templateInput r num tza now r' s)
                  = Some (alerts @ [(m, k)])))"
proof -
  have a: "failure_message r ''Failed to add time'' = Some msg \<and> t \<noteq> [] \<and> ty \<noteq> [] \<longrightarrow>
      (addTime (Some t) (Some ty) r num tza now r' s)\<lparr>flash_container := flash_container s\<rparr> = s
      \<and> (flash_container s = Some alerts \<longrightarrow>
           flash_container (addTime (Some t) (Some ty) r num tza now r' s)
             = Some (alerts @ [(Message msg, ''error'')]))"
    by (simp add: addTime_failure notification_only showNotification_present)
  have b: "failure_message r ''Failed to delete time'' = Some msg \<longrightarrow>
      (deleteTime t True r num tza now r' s)\<lparr>flash_container := flash_container s\<rparr> = s
      \<and> (flash_container s = Some alerts \<longrightarrow>
           flash_container (deleteTime t True r num tza now r' s)
             = Some (alerts @ [(Message msg, ''error'')]))"
    by (simp add: deleteTime_failure notification_only showNotification_present)
  have c: "failure_message r ''Failed to add custom type'' = Some msg
        \<and> js_trim n \<noteq> [] \<and> js_trim tpl \<noteq> [] \<longrightarrow>
      (addType (Some n) (Some tpl) r num tza now r' s)\<lparr>flash_container := flash_container s\<rparr> = s
      \<and> (flash_container s = Some alerts \<longrightarrow>
           flash_container (addType (Some n) (Some tpl) r num tza now r' s)
             = Some (alerts @ [(Message msg, ''error'')]))"
    by (simp add: addType_failure notification_only showNotification_present)
  have d: "flash_container s = Some alerts \<longrightarrow>
        (\<exists>m k. flash_container (addTime timeInput typeSelect r num tza now r' s)
                  = Some (alerts @ [(m, k)]))
        \<and> (\<exists>m k. flash_container (deleteTime t True r num tza now r' s) = Some (alerts @ [(m, k)]))
        \<and> (\<exists>m k. flash_container (addType nameInput templateInput r num tza now r' s)
                  = Some (alerts @ [(m, k)]))"
    by (simp add: addTime_def deleteTime_def addType_def showNotification_present
        flash_of_refreshState split: option.splits reply.splits)
  from a b c d show ?thesis
    by (intro conjI)
qed

theorem mutation_failure_witness:
  "failure_message (Reply False \<lparr>body_status = None, body_error = Some ''Invalid time format'',
        body_times = None, body_custom_types = None\<rparr>) ''Failed to add time''
     = Some ''Invalid time format''
   \<and> addTime (Some ''10:00'') (Some ''hour'')
       (Reply False \<lparr>body_status = None, body_error = Some ''Invalid time format'',
          body_times = None, body_custom_types = None\<rparr>)
       decimal_Number (fixed_zone 0) 1728035400000 (Rejected ''unused'')
       \<lparr>times_Map = [(''09:00'', ''rules'')], types_Map = [(''vip'', ''VIP skate'')],
        scheduleList = Some Placeholder, timesTextarea = Some ''09:00 = rules'',
        customTypesList = Some Placeholder, customTypesTextarea = Some [],
        newType = Some [], upcomingList = Some Placeholder, flash_container = Some []\<rparr>
     = \<lparr>times_Map = [(''09:00'', ''rules'')], types_Map = [(''vip'', ''VIP skate'')],
        scheduleList = Some Placeholder, timesTextarea = Some ''09:00 = rules'',
        customTypesList = Some Placeholder, customTypesTextarea = Some [],
        newType = Some [], upcomingList = Some Placeholder,
        flash_container = Some [(Message ''Invalid time format'', ''error'')]\<rparr>
   \<and> failure_message (Rejected ''Failed to fetch'') ''Failed to delete time''
     = Some ''Failed to fetch''
   \<and> deleteTime ''09:00'' True (Rejected ''Failed to fetch'')
       decimal_Number (fixed_zone 0) 1728035400000 (Rejected ''unused'')
       \<lparr>times_Map = [(''09:00'', ''rules'')], types_Map = [(''vip'', ''VIP skate'')],
        scheduleList = Some Placeholder, timesTextarea = Some ''09:00 = rules'',
        customTypesList = Some Placeholder, customTypesTextarea = Some [],
        newType = Some [], upcomingList = Some Placeholder, flash_container = Some []\<rparr>
     = \<lparr>times_Map = [(''09:00'', ''rules'')], types_Map = [(''vip'', ''VIP skate'')],
        scheduleList = Some Placeholder, timesTextarea = Some ''09:00 = rules'',
        customTypesList = Some Placeholder, customTypesTextarea = Some [],
        newType = Some [], upcomingList = Some Placeholder,
        flash_container = Some [(Message ''Failed to fetch'', ''error'')]\<rparr>"
proof -
  let ?s = "\<lparr>times_Map = [(''09:00'', ''rules'')], types_Map = [(''vip'', ''VIP skate'')],
        scheduleList = Some Placeholder, timesTextarea = Some ''09:00 = rules'',
        customTypesList = Some Placeholder, customTypesTextarea = Some [],
        newType = Some [], upcomingList = Some Placeholder, flash_container = Some []\<rparr>"
  let ?r = "Reply False \<lparr>body_status = None, body_error = Some ''Invalid time format'',
        body_times = None, body_custom_types = None\<rparr>"
  have f: "flash_container ?s = Some []"
    by simp
  have m: "failure_message ?r ''Failed to add time'' = Some ''Invalid time format''"
    "failure_message (Rejected ''Failed to fetch'') ''Failed to delete time'' = Some ''Failed to fetch''"
    by (simp_all add: failure_message_def error_or_def)
  show ?thesis
    using mutation_failure [where r = ?r and msg = "''Invalid time format''" and t = "''10:00''"
        and ty = "''hour''" and num = decimal_Number and tza = "fixed_zone 0" and now = 1728035400000
        and r' = "Rejected ''unused''" and s = ?s and alerts = "[]"]
      mutation_failure [where r = "Rejected ''Failed to fetch''" and msg = "''Failed to fetch''"
        and t = "''09:00''" and num = decimal_Number and tza = "fixed_zone 0" and now = 1728035400000
        and r' = "Rejected ''unused''" and s = ?s and alerts = "[]"]
      m f
    by (simp add: addTime_failure deleteTime_failure showNotification_def)
qed

end
